theory Spec2Isabelle
  imports Main
begin

section \<open>The action engine of the SDK (packages/sdk/src/engine.ts)\<close>

text \<open>
  The development embeds \<open>handleAction\<close> of \<open>engine.ts\<close>. The function is asynchronous
  and effectful; the embedding is a pure function from the invocation and its
  collaborators to the outcome of the call: whether the returned promise is rejected,
  and the calls \<open>handleAction\<close> made to its collaborators, in order (the trace).
  The collaborators (the addon, \<open>validateSignature\<close>, the \<open>migrations\<close> table,
  \<open>getActionValidator\<close>, the cache, \<open>handleTask\<close>) live in modules outside
  \<open>engine.ts\<close>; they are parameters, collected in the record \<open>env\<close>.
\<close>

subsection \<open>JavaScript values\<close>

text \<open>
  The values that flow through the engine are of TypeScript type \<open>any\<close>. The fragment
  needed here: \<open>undefined\<close>, \<open>null\<close>, booleans, integers, strings and plain objects
  (a list of properties; the first binding of a name is the one that is read).
\<close>

datatype jsval =
    VUndefined
  | VNull
  | VBool bool
  | VNum int
  | VStr string
  | VObj "(string \<times> jsval) list"

text \<open>
  What a \<open>throw\<close> or a rejected promise carries. The engine asks one question of a
  caught value with \<open>instanceof\<close>: is it a \<open>CacheFoundError\<close>? From such an error it reads
  the fields \<open>result\<close> and \<open>error\<close>. Every other thrown value is \<open>Exn v\<close>; JavaScript can
  throw any value, not only \<open>Error\<close> objects.
\<close>

datatype thrown =
    CacheFoundError (result: jsval) (error: jsval)
  | Exn jsval

text \<open>\<open>new Error(message)\<close>, and \<open>new SilentError(message)\<close> of lines 22-29, as objects.\<close>

definition new_Error :: "string \<Rightarrow> jsval" where
  "new_Error msg = VObj [(''message'', VStr msg)]"

definition SilentError :: "string \<Rightarrow> jsval" where
  "SilentError msg = VObj [(''message'', VStr msg), (''noBacktraceLog'', VBool True)]"

text \<open>
  The \<open>TypeError\<close> that reading a property of \<open>null\<close> or \<open>undefined\<close> throws (its message
  text depends on the JavaScript engine and is left out).
\<close>

definition TypeError :: jsval where
  "TypeError = VObj [(''name'', VStr ''TypeError'')]"

text \<open>JavaScript truthiness, as \<open>||\<close>, \<open>!\<close> and \<open>if\<close> use it.\<close>

fun truthy :: "jsval \<Rightarrow> bool" where
  "truthy VUndefined = False"
| "truthy VNull = False"
| "truthy (VBool b) = b"
| "truthy (VNum n) = (n \<noteq> 0)"
| "truthy (VStr s) = (s \<noteq> [])"
| "truthy (VObj fs) = True"

text \<open>
  Property access \<open>v.name\<close>: a \<open>TypeError\<close> on \<open>null\<close> and \<open>undefined\<close>, \<open>undefined\<close> on the
  other primitives and on an object without the property.
\<close>

fun get_property :: "jsval \<Rightarrow> string \<Rightarrow> thrown + jsval" where
  "get_property VUndefined name = Inl (Exn TypeError)"
| "get_property VNull name = Inl (Exn TypeError)"
| "get_property (VObj fs) name = Inr (case map_of fs name of None \<Rightarrow> VUndefined | Some x \<Rightarrow> x)"
| "get_property v name = Inr VUndefined"

subsection \<open>The collaborators\<close>

text \<open>
  An inline cache entry, as \<open>cache.inline(key)\<close> returns it: the engine calls its
  methods \<open>set\<close> and \<open>setError\<close> and nothing else. Either call may fail
  (\<open>Some e\<close>: the awaited promise is rejected with \<open>e\<close>).
\<close>

record inline_entry =
  inline_set :: "jsval \<Rightarrow> thrown option"
  inline_setError :: "jsval \<Rightarrow> thrown option"

text \<open>
  A handler is a caller-supplied asynchronous function. The engine observes these
  things of its run: it returns a value, it throws, or it uses the \<open>requestCache\<close>
  capability. The closure \<open>requestCache\<close> is asynchronous itself: a call runs up to the
  \<open>await\<close> of line 120 and hands back a promise, and the assignment of line 120 happens
  when the lookup settles. So a handler may
  \<^item> call and await in one go, \<open>await ctx.requestCache(key, options)\<close>, and go on with
    what the call did (\<open>None\<close>: it returned; \<open>Some e\<close>: it threw \<open>e\<close>, which the handler
    may rethrow or swallow): \<open>RequestCache\<close>;
  \<^item> start a call without waiting for it, as \<open>Promise.all\<close> over several calls does:
    \<open>Begin\<close>. The calls of one run are numbered from 0 in the order they start;
  \<^item> go on when call number \<open>i\<close> has settled, seeing its result if it awaits it:
    \<open>Settle\<close>. A handler program thus fixes, with the handler's own steps, the order
    in which its pending lookups settle.
  A call that is still pending when the run of the handler ends is taken to settle
  after the invocation. The capabilities \<open>cache\<close>, \<open>fetch\<close> and \<open>recaptcha\<close> come from
  \<open>cache.ts\<close> and \<open>tasks.ts\<close>; what a handler does with them is part of the handler
  and shows here only in what it returns or throws. A handler program is a
  well-founded tree: every run of a handler ends.
\<close>

datatype hprog =
    Return jsval
  | Throw thrown
  | RequestCache jsval jsval "thrown option \<Rightarrow> hprog"
  | Begin jsval jsval hprog
  | Settle nat "thrown option \<Rightarrow> hprog"

text \<open>The second argument of the handler (lines 143-150), without the capabilities.\<close>

record handler_context =
  ctx_request :: jsval
  ctx_sig :: jsval
  ctx_testMode :: bool

type_synonym handler = "jsval \<Rightarrow> handler_context \<Rightarrow> hprog"

text \<open>\<open>getActionValidator(type, action)\<close> returns an object with two transforms.\<close>

record validator =
  v_request :: "jsval \<Rightarrow> thrown + jsval"
  v_response :: "jsval \<Rightarrow> thrown + jsval"

text \<open>
  \<open>migrationCtx\<close> of lines 97-102 (the addon itself is in \<open>env\<close>). The field \<open>data\<close> is
  scratch space that the request transform of a migration may write and its response
  transform may read.
\<close>

record migrationCtx =
  data :: jsval
  sigData :: jsval
  validator :: validator

text \<open>
  An entry of the \<open>migrations\<close> table. Lines 103 and 163 test the properties \<open>request\<close>
  and \<open>response\<close> of an entry one by one, so each is optional. A request transform
  returns the new \<open>data\<close> of the context with the new input.
\<close>

record migration =
  m_request :: "(migrationCtx \<Rightarrow> jsval \<Rightarrow> thrown + (jsval \<times> jsval)) option"
  m_response :: "(migrationCtx \<Rightarrow> jsval \<Rightarrow> jsval \<Rightarrow> thrown + jsval) option"

record env =
  SKIP_AUTH :: "string option"
  replayMode :: bool
  requestRecorderPath :: "string option"
  getId :: string
  getType :: string
  getDefaultCacheOptions :: jsval
  getActionHandler :: "string \<Rightarrow> thrown + handler"
  validateSignature :: "string \<Rightarrow> thrown + jsval"
  getActionValidator :: "string \<Rightarrow> string \<Rightarrow> validator"
  migrations :: "string \<Rightarrow> migration option"
  cache_inline :: "jsval \<Rightarrow> jsval \<Rightarrow> thrown + inline_entry"
  handleTask :: "jsval \<Rightarrow> thrown option"

text \<open>
  \<open>SKIP_AUTH\<close> is \<open>process.env.SKIP_AUTH\<close>; \<open>replayMode\<close> and \<open>requestRecorderPath\<close> are
  fields of \<open>opts\<close>; \<open>getId\<close> to \<open>getActionHandler\<close> are the methods of the addon;
  \<open>cache_inline options key\<close> is \<open>cache.clone(options).inline(key)\<close> on the cache handle
  of lines 110-113; \<open>handleTask input\<close> is the call of lines 75-80.
\<close>

text \<open>\<open>HandleActionProps\<close> (lines 51-59); \<open>opts\<close>, \<open>addon\<close> and \<open>sendResponse\<close> are in \<open>env\<close>.\<close>

record props =
  action :: string
  input :: jsval
  sig :: string
  request :: jsval

subsection \<open>The Responder\<close>

text \<open>\<open>RecordData\<close> of the request recorder, as far as lines 124-131 fill it.\<close>

record recordData =
  rd_addon :: string
  rd_action :: string
  rd_input :: jsval
  rd_output :: "jsval option"

text \<open>
  Modelled from the spec: the state of the class \<open>Responder\<close> of \<open>tasks.ts\<close>, which is
  not among the sources. Section 3: "Responder state: pendingRequestId, recordedExchange
  (partial record or null). Lifecycle: created per invocation; exactly one terminal
  send transitions it to closed; sending again after close is an error". The field
  \<open>attached\<close> says whether the delivery channel \<open>sendResponse\<close> is still attached
  (section 4.5). The exchange id is only handed from \<open>send\<close> back to
  \<open>setSendResponse\<close> and is left out.
\<close>

record responder =
  recordedExchange :: "recordData option"
  attached :: bool
  closed :: bool

text \<open>
  Modelled from the spec: \<open>new Responder(record, sendResponse)\<close>, "created per
  invocation", open and attached.
\<close>

definition Responder :: "recordData option \<Rightarrow> responder" where
  "Responder rec = \<lparr>recordedExchange = rec, attached = True, closed = False\<rparr>"

text \<open>
  Modelled from the spec: \<open>send(kind, statusCode, payload)\<close>. Section 4.5: "Guarantees
  exactly one successful terminal send per invocation; a second call is rejected. When
  a request-recording sink is configured, the Responder mirrors addon, action, input
  and output into it after sending."
\<close>

definition send :: "responder \<Rightarrow> string \<Rightarrow> nat \<Rightarrow> jsval \<Rightarrow> thrown + responder" where
  "send r type statusCode body =
     (if closed r then Inl (Exn (new_Error ''Responder is closed''))
      else Inr (r\<lparr>closed := True,
                  recordedExchange :=
                    map_option (\<lambda>d. d\<lparr>rd_output := Some body\<rparr>) (recordedExchange r)\<rparr>))"

text \<open>
  Modelled from the spec: \<open>setSendResponse(id, null)\<close>. Section 4.5: "the Dispatcher
  explicitly detaches the responder from its delivery channel".
\<close>

definition setSendResponse :: "responder \<Rightarrow> responder" where
  "setSendResponse r = r\<lparr>attached := False\<rparr>"

subsection \<open>Traces\<close>

text \<open>The calls \<open>handleAction\<close> makes, with their arguments.\<close>

datatype event =
    EvHandleTask jsval
  | EvGetActionHandler string
  | EvValidateSignature string
  | EvGetActionValidator string string
  | EvMigrationRequest string jsval
  | EvValidatorRequest jsval
  | EvCacheClone string jsval
  | EvHandler jsval jsval
  | EvInline jsval jsval
  | EvMigrationResponse string jsval jsval
  | EvValidatorResponse jsval
  | EvSet jsval
  | EvSetError jsval
  | EvWarn jsval
  | EvSend string nat jsval
  | EvSetSendResponse

text \<open>
  A call of \<open>requestCache\<close> that has started: its lookup is pending and will settle with
  an error or an entry, or the call has settled (\<open>None\<close>: it returned; \<open>Some e\<close>: it
  threw \<open>e\<close>).
\<close>

datatype call =
    Pending "thrown + inline_entry"
  | Settled "thrown option"


text \<open>
  The mutable part of one invocation while the handler runs: the trace so far, the
  variable \<open>inlineCache\<close> of line 116, and the calls of \<open>requestCache\<close> started so far.
\<close>

record st =
  trace :: "event list"
  inlineCache :: "inline_entry option"
  calls :: "call list"

definition emit :: "event list \<Rightarrow> st \<Rightarrow> st" where
  "emit evs s = s\<lparr>trace := trace s @ evs\<rparr>"

text \<open>What one call of \<open>handleAction\<close> leaves behind.\<close>

record outcome =
  rejected :: "thrown option"
  events :: "event list"
  final_responder :: "responder option"

subsection \<open>The stages of \<open>handleAction\<close>\<close>

text \<open>Lines 89-92: the condition under which \<open>validateSignature\<close> is not called.\<close>

definition auth_exempt :: "env \<Rightarrow> string \<Rightarrow> bool" where
  "auth_exempt e act \<longleftrightarrow>
     SKIP_AUTH e = Some ''1'' \<or> act = ''selftest'' \<or> act = ''addon'' \<or>
     (getType e = ''repository'' \<and> act = ''repository'')"

text \<open>Lines 103-107.\<close>

definition migrate_request ::
  "env \<Rightarrow> string \<Rightarrow> migrationCtx \<Rightarrow> jsval \<Rightarrow> event list \<times> (thrown + (migrationCtx \<times> jsval))" where
  "migrate_request e act ctx inp =
     (case Option.bind (migrations e act) m_request of
        Some f \<Rightarrow>
          ([EvMigrationRequest act inp],
           case f ctx inp of Inl err \<Rightarrow> Inl err | Inr (d, inp') \<Rightarrow> Inr (ctx\<lparr>data := d\<rparr>, inp'))
      | None \<Rightarrow>
          ([EvValidatorRequest inp],
           case v_request (validator ctx) inp of Inl err \<Rightarrow> Inl err | Inr inp' \<Rightarrow> Inr (ctx, inp')))"

text \<open>Lines 163-167.\<close>

definition migrate_response ::
  "env \<Rightarrow> string \<Rightarrow> migrationCtx \<Rightarrow> jsval \<Rightarrow> jsval \<Rightarrow> event list \<times> (thrown + jsval)" where
  "migrate_response e act ctx inp out =
     (case Option.bind (migrations e act) m_response of
        Some f \<Rightarrow> ([EvMigrationResponse act inp out], f ctx inp out)
      | None \<Rightarrow> ([EvValidatorResponse out], v_response (validator ctx) out))"

text \<open>What lines 85-107 hand to the rest of the function.\<close>

record prepared =
  p_handler :: handler
  p_ctx :: migrationCtx
  p_input :: jsval

text \<open>Lines 96-107, once the signature data is known.\<close>

definition prepare_migrate ::
  "env \<Rightarrow> props \<Rightarrow> handler \<Rightarrow> event list \<Rightarrow> jsval \<Rightarrow> event list \<times> (thrown + prepared)" where
  "prepare_migrate e p h evs sd =
     (let migrationCtx =
            \<lparr>data = VObj [], sigData = sd,
             validator = getActionValidator e (getType e) (action p)\<rparr>;
          evs1 = evs @ [EvGetActionValidator (getType e) (action p)]
      in case migrate_request e (action p) migrationCtx (input p) of
           (evs2, Inl err) \<Rightarrow> (evs1 @ evs2, Inl err)
         | (evs2, Inr (ctx, inp)) \<Rightarrow>
             (evs1 @ evs2, Inr \<lparr>p_handler = h, p_ctx = ctx, p_input = inp\<rparr>))"

text \<open>
  Lines 85-107: handler resolution, signature validation, request migration. None of
  these calls stands inside the \<open>try\<close> of line 139: an error of theirs leaves
  \<open>handleAction\<close> as a rejection.
\<close>

definition prepare :: "env \<Rightarrow> props \<Rightarrow> event list \<times> (thrown + prepared)" where
  "prepare e p =
     (case getActionHandler e (action p) of
        Inl err \<Rightarrow> ([EvGetActionHandler (action p)], Inl err)
      | Inr h \<Rightarrow>
          (if auth_exempt e (action p) then
             prepare_migrate e p h [EvGetActionHandler (action p)] VNull
           else
             (case validateSignature e (sig p) of
                Inl err \<Rightarrow> ([EvGetActionHandler (action p), EvValidateSignature (sig p)], Inl err)
              | Inr sd \<Rightarrow>
                  prepare_migrate e p h
                    [EvGetActionHandler (action p), EvValidateSignature (sig p)] sd)))"

text \<open>
  Lines 117-120, a call of the closure \<open>requestCache\<close> up to its \<open>await\<close>: the guard of
  line 118 is tested against the variable as it is now (an entry object is truthy);
  if it passes, the lookup \<open>cache.clone(options).inline(key)\<close> is started. The variable
  is not assigned here.
\<close>

definition requestCache :: "env \<Rightarrow> jsval \<Rightarrow> jsval \<Rightarrow> st \<Rightarrow> st" where
  "requestCache e key options s =
     (case inlineCache s of
        Some c \<Rightarrow>
          s\<lparr>calls := calls s @
                 [Settled (Some (Exn (new_Error ''Request cache is already set up'')))]\<rparr>
      | None \<Rightarrow>
          (emit [EvInline key options] s)
            \<lparr>calls := calls s @ [Pending (cache_inline e options key)]\<rparr>)"

text \<open>
  Line 120 after the \<open>await\<close>: the lookup of call number \<open>i\<close> settles. An entry is
  assigned to \<open>inlineCache\<close>, whatever the variable holds by then; an error is thrown to
  whoever awaits the call. A call that has settled already answers as it did. A number
  that names no call stands for awaiting something else: nothing happens.
\<close>

definition requestCache_settle :: "nat \<Rightarrow> st \<Rightarrow> thrown option \<times> st" where
  "requestCache_settle i s =
     (if i < length (calls s) then
        (case calls s ! i of
           Settled r \<Rightarrow> (r, s)
         | Pending l \<Rightarrow>
             (case l of
                Inl err \<Rightarrow> (Some err, s\<lparr>calls := (calls s)[i := Settled (Some err)]\<rparr>)
              | Inr c \<Rightarrow>
                  (None, s\<lparr>inlineCache := Some c, calls := (calls s)[i := Settled None]\<rparr>)))
      else (None, s))"

text \<open>
  The run of a handler program against the closure. In \<open>RequestCache\<close> the call that
  starts is the one awaited: its number is the number of calls started before it.
\<close>

primrec run_handler :: "hprog \<Rightarrow> env \<Rightarrow> st \<Rightarrow> (thrown + jsval) \<times> st" where
  "run_handler (Return v) = (\<lambda>e s. (Inr v, s))"
| "run_handler (Throw err) = (\<lambda>e s. (Inl err, s))"
| "run_handler (RequestCache key options k) =
     (\<lambda>e s. case requestCache_settle (length (calls s)) (requestCache e key options s) of
              (r, s') \<Rightarrow> run_handler (k r) e s')"
| "run_handler (Begin key options prog) =
     (\<lambda>e s. run_handler prog e (requestCache e key options s))"
| "run_handler (Settle i k) =
     (\<lambda>e s. case requestCache_settle i s of (r, s') \<Rightarrow> run_handler (k r) e s')"

text \<open>Lines 140-152: the call of the handler.\<close>

definition handler_run :: "env \<Rightarrow> props \<Rightarrow> prepared \<Rightarrow> st \<Rightarrow> (thrown + jsval) \<times> st" where
  "handler_run e p q s =
     (let testMode = (replayMode e \<or> action p = ''selftest'');
          ctx = \<lparr>ctx_request = request p, ctx_sig = sigData (p_ctx q), ctx_testMode = testMode\<rparr>
      in run_handler (p_handler q (p_input q) ctx) e
           (emit [EvHandler (p_input q) (sigData (p_ctx q))] s))"

text \<open>
  Lines 140-167: the handler is called, the default errors are raised, the response
  is migrated.
\<close>

definition invoke :: "env \<Rightarrow> props \<Rightarrow> prepared \<Rightarrow> st \<Rightarrow> (thrown + jsval) \<times> st" where
  "invoke e p q s =
     (case handler_run e p q s of
        (Inl err, s1) \<Rightarrow> (Inl err, s1)
      | (Inr out, s1) \<Rightarrow>
          (if (action p = ''resolve'' \<or> action p = ''captcha'') \<and> out = VNull
           then (Inl (Exn (new_Error ''Nothing found'')), s1)
           else (case migrate_response e (action p) (p_ctx q) (p_input q) out of
                   (evs, r) \<Rightarrow> (r, emit evs s1))))"

text \<open>Lines 139-170: the body of the \<open>try\<close>.\<close>

definition try_block :: "env \<Rightarrow> props \<Rightarrow> prepared \<Rightarrow> st \<Rightarrow> (thrown + jsval) \<times> st" where
  "try_block e p q s =
     (case invoke e p q s of
        (Inl err, s1) \<Rightarrow> (Inl err, s1)
      | (Inr out, s1) \<Rightarrow>
          (case inlineCache s1 of
             None \<Rightarrow> (Inr out, s1)
           | Some c \<Rightarrow>
               (case inline_set c out of
                  Some err \<Rightarrow> (Inl err, emit [EvSet out] s1)
                | None \<Rightarrow> (Inr out, emit [EvSet out] s1))))"

text \<open>
  Lines 171-189: the \<open>catch\<close>. It yields the status code and the output to send, or
  throws itself: when \<open>setError\<close> fails, and when the caught value is \<open>null\<close> or
  \<open>undefined\<close>, whose property \<open>message\<close> cannot be read.
\<close>

definition catch_block :: "thrown \<Rightarrow> st \<Rightarrow> (thrown + (nat \<times> jsval)) \<times> st" where
  "catch_block err s =
     (case err of
        CacheFoundError res cached \<Rightarrow>
          (if res \<noteq> VUndefined then (Inr (200, res), s)
           else (Inr (500, VObj [(''error'', cached)]), s))
      | Exn v \<Rightarrow>
          (let s1 = (case inlineCache s of None \<Rightarrow> s | Some c \<Rightarrow> emit [EvSetError v] s)
           in case Option.bind (inlineCache s) (\<lambda>c. inline_setError c v) of
                Some err' \<Rightarrow> (Inl err', s1)
              | None \<Rightarrow>
                  (case get_property v ''message'' of
                     Inl err' \<Rightarrow> (Inl err', s1)
                   | Inr m \<Rightarrow>
                       (case get_property v ''noBacktraceLog'' of
                          Inl err' \<Rightarrow> (Inl err', s1)
                        | Inr quiet \<Rightarrow>
                            (Inr (500, VObj [(''error'', if truthy m then m else v)]),
                             if truthy quiet then s1 else emit [EvWarn v] s1)))))"

text \<open>Lines 192-195.\<close>

definition response_type :: "jsval \<Rightarrow> string" where
  "response_type out =
     (case out of
        VObj fs \<Rightarrow> (if map_of fs ''kind'' = Some (VStr ''taskRequest'') then ''task'' else ''response'')
      | _ \<Rightarrow> ''response'')"

text \<open>Lines 191-197.\<close>

definition send_response :: "responder \<Rightarrow> nat \<Rightarrow> jsval \<Rightarrow> event list \<Rightarrow> outcome" where
  "send_response r statusCode out evs =
     (case send r (response_type out) statusCode out of
        Inl err \<Rightarrow>
          \<lparr>rejected = Some err,
           events = evs @ [EvSend (response_type out) statusCode out],
           final_responder = Some r\<rparr>
      | Inr r' \<Rightarrow>
          \<lparr>rejected = None,
           events = evs @ [EvSend (response_type out) statusCode out, EvSetSendResponse],
           final_responder = Some (setSendResponse r')\<rparr>)"

text \<open>Lines 124-131: the record of the request, when a recorder path is configured.\<close>

definition request_record :: "env \<Rightarrow> props \<Rightarrow> prepared \<Rightarrow> recordData option" where
  "request_record e p q =
     (case requestRecorderPath e of
        None \<Rightarrow> None
      | Some path \<Rightarrow>
          (if path = [] then None
           else Some \<lparr>rd_addon = getId e, rd_action = action p, rd_input = p_input q,
                      rd_output = None\<rparr>))"

text \<open>The state in which the handler starts: lines 109-134 after the events \<open>evs\<close>.\<close>

definition start :: "env \<Rightarrow> event list \<Rightarrow> st" where
  "start e evs =
     \<lparr>trace = evs @ [EvCacheClone (getId e) (getDefaultCacheOptions e)], inlineCache = None,
      calls = []\<rparr>"

text \<open>Lines 109-197.\<close>

definition dispatch :: "env \<Rightarrow> props \<Rightarrow> prepared \<Rightarrow> event list \<Rightarrow> outcome" where
  "dispatch e p q evs =
     (let r = Responder (request_record e p q)
      in case try_block e p q (start e evs) of
           (Inr out, s1) \<Rightarrow> send_response r 200 out (trace s1)
         | (Inl err, s1) \<Rightarrow>
             (case catch_block err s1 of
                (Inl err', s2) \<Rightarrow>
                  \<lparr>rejected = Some err', events = trace s2, final_responder = Some r\<rparr>
              | (Inr (statusCode, out), s2) \<Rightarrow> send_response r statusCode out (trace s2)))"

text \<open>Lines 64-198.\<close>

definition handleAction :: "env \<Rightarrow> props \<Rightarrow> outcome" where
  "handleAction e p =
     (if action p = ''task'' then
        \<lparr>rejected = handleTask e (input p), events = [EvHandleTask (input p)],
         final_responder = None\<rparr>
      else
        (case prepare e p of
           (evs, Inl err) \<Rightarrow> \<lparr>rejected = Some err, events = evs, final_responder = None\<rparr>
         | (evs, Inr q) \<Rightarrow> dispatch e p q evs))"

subsection \<open>Observations on a trace\<close>

fun is_send :: "event \<Rightarrow> bool" where
  "is_send (EvSend ty statusCode out) = True"
| "is_send ev = False"

definition sends :: "event list \<Rightarrow> event list" where
  "sends evs = filter is_send evs"

fun is_handler_call :: "event \<Rightarrow> bool" where
  "is_handler_call (EvHandler inp sd) = True"
| "is_handler_call ev = False"

fun is_validateSignature :: "event \<Rightarrow> bool" where
  "is_validateSignature (EvValidateSignature s) = True"
| "is_validateSignature ev = False"

text \<open>The calls of lines 162-170 and 182: response migration and outcome recording.\<close>

fun is_late_step :: "event \<Rightarrow> bool" where
  "is_late_step (EvMigrationResponse act inp out) = True"
| "is_late_step (EvValidatorResponse out) = True"
| "is_late_step (EvSet out) = True"
| "is_late_step (EvSetError v) = True"
| "is_late_step ev = False"

fun is_warn :: "event \<Rightarrow> bool" where
  "is_warn (EvWarn v) = True"
| "is_warn ev = False"

fun is_transform :: "event \<Rightarrow> bool" where
  "is_transform (EvMigrationRequest act inp) = True"
| "is_transform (EvValidatorRequest inp) = True"
| "is_transform (EvMigrationResponse act inp out) = True"
| "is_transform (EvValidatorResponse out) = True"
| "is_transform ev = False"

fun is_inline :: "event \<Rightarrow> bool" where
  "is_inline (EvInline key options) = True"
| "is_inline ev = False"

text \<open>The calls of lines 170 and 182-197: recording, logging, sending, detaching.\<close>

fun is_closing :: "event \<Rightarrow> bool" where
  "is_closing (EvSet out) = True"
| "is_closing (EvSetError v) = True"
| "is_closing (EvWarn v) = True"
| "is_closing (EvSend ty statusCode out) = True"
| "is_closing EvSetSendResponse = True"
| "is_closing ev = False"

text \<open>The transform that lines 103-107, and lines 163-167, choose, as an event.\<close>

definition request_event :: "env \<Rightarrow> props \<Rightarrow> event" where
  "request_event e p =
     (case Option.bind (migrations e (action p)) m_request of
        None \<Rightarrow> EvValidatorRequest (input p)
      | Some f \<Rightarrow> EvMigrationRequest (action p) (input p))"

definition response_event :: "env \<Rightarrow> props \<Rightarrow> prepared \<Rightarrow> jsval \<Rightarrow> event" where
  "response_event e p q out =
     (case Option.bind (migrations e (action p)) m_response of
        None \<Rightarrow> EvValidatorResponse out
      | Some g \<Rightarrow> EvMigrationResponse (action p) (p_input q) out)"

subsection \<open>A concrete addon\<close>

text \<open>
  An addon of type \<open>worker\<close> with a handful of handlers (\<open>swallow\<close> catches what
  \<open>requestCache\<close> throws and computes anyway; \<open>overlap\<close> starts two calls of
  \<open>requestCache\<close> before either has settled), a cache that knows three keys,
  and a migration table with one entry, for \<open>directory\<close>, that has a request
  transform and no response transform. The theorems below are instantiated on it.
\<close>

definition demo_validator :: validator where
  "demo_validator = \<lparr>v_request = Inr, v_response = Inr\<rparr>"

definition demo_entry :: inline_entry where
  "demo_entry = \<lparr>inline_set = (\<lambda>v. None), inline_setError = (\<lambda>v. None)\<rparr>"

definition propagate :: "hprog \<Rightarrow> thrown option \<Rightarrow> hprog" where
  "propagate rest r = (case r of Some err \<Rightarrow> Throw err | None \<Rightarrow> rest)"

definition demo_handlers :: "string \<Rightarrow> thrown + handler" where
  "demo_handlers act =
     (if act = ''resolve'' then Inr (\<lambda>inp ctx. Return VNull)
      else if act = ''selftest'' then Inr (\<lambda>inp ctx. Return VNull)
      else if act = ''directory'' then Inr (\<lambda>inp ctx. Return (VObj [(''items'', VNum 0)]))
      else if act = ''item'' then
        Inr (\<lambda>inp ctx. RequestCache inp (VObj []) (propagate (Return (VStr ''fresh''))))
      else if act = ''source'' then Inr (\<lambda>inp ctx. Throw (Exn (SilentError ''quiet'')))
      else if act = ''subtitle'' then
        Inr (\<lambda>inp ctx. RequestCache inp (VObj [])
               (propagate (RequestCache (VStr ''B'') (VObj []) (propagate (Return (VNum 7))))))
      else if act = ''swallow'' then
        Inr (\<lambda>inp ctx. RequestCache inp (VObj []) (\<lambda>r. Return (VStr ''recomputed'')))
      else if act = ''overlap'' then
        Inr (\<lambda>inp ctx. Begin (VStr ''A'') (VObj []) (Begin (VStr ''B'') (VObj [])
               (Settle 0 (propagate (Settle 1 (propagate (Return (VStr ''fresh''))))))))
      else Inl (Exn (new_Error ''No handler for action'')))"

definition demo_cache :: "jsval \<Rightarrow> jsval \<Rightarrow> thrown + inline_entry" where
  "demo_cache options key =
     (if key = VStr ''hit'' then Inl (CacheFoundError (VNum 42) VUndefined)
      else if key = VStr ''failed'' then Inl (CacheFoundError VUndefined (VStr ''boom''))
      else Inr demo_entry)"

definition demo_migrations :: "string \<Rightarrow> migration option" where
  "demo_migrations act =
     (if act = ''directory'' then
        Some \<lparr>m_request = Some (\<lambda>ctx inp. Inr (VObj [(''legacy'', VBool True)], inp)),
              m_response = None\<rparr>
      else None)"

definition demo_env :: env where
  "demo_env =
     \<lparr>SKIP_AUTH = None, replayMode = False, requestRecorderPath = None,
      getId = ''demo'', getType = ''worker'', getDefaultCacheOptions = VObj [],
      getActionHandler = demo_handlers,
      validateSignature =
        (\<lambda>s. if s = ''good'' then Inr (VObj [(''user'', VStr ''u'')])
             else Inl (Exn (new_Error ''Invalid signature''))),
      getActionValidator = (\<lambda>ty act. demo_validator),
      migrations = demo_migrations,
      cache_inline = demo_cache,
      handleTask = (\<lambda>inp. None)\<rparr>"

definition demo_props :: "string \<Rightarrow> jsval \<Rightarrow> string \<Rightarrow> props" where
  "demo_props act inp s = \<lparr>action = act, input = inp, sig = s, request = VNull\<rparr>"

section \<open>Properties\<close>

subsection \<open>Unfolding and evaluation\<close>

lemmas demo_defs =
  demo_env_def demo_props_def demo_handlers_def demo_cache_def demo_migrations_def
  demo_validator_def demo_entry_def propagate_def

lemmas model_defs =
  handleAction_def prepare_def prepare_migrate_def auth_exempt_def migrate_request_def
  migrate_response_def dispatch_def try_block_def invoke_def handler_run_def catch_block_def
  send_response_def send_def Responder_def setSendResponse_def request_record_def start_def
  emit_def requestCache_def requestCache_settle_def response_type_def new_Error_def SilentError_def TypeError_def





lemma requestCache_trace:
  "\<exists>ks. trace (requestCache e key options s) = trace s @ ks \<and>
        filter (\<lambda>ev. \<not> is_inline ev) ks = []"
  by (auto simp: requestCache_def emit_def split: option.splits)

lemma requestCache_settle_trace: "trace (snd (requestCache_settle i s)) = trace s"
  by (auto simp: requestCache_settle_def split: call.splits sum.splits)

lemma run_handler_trace:
  "\<exists>ks. trace (snd (run_handler prog e s)) = trace s @ ks \<and>
        filter (\<lambda>ev. \<not> is_inline ev) ks = []"
proof (induction prog arbitrary: s)
  case (RequestCache key options k)
  let ?s1 = "requestCache e key options s"
  obtain r s' where rs: "requestCache_settle (length (calls s)) ?s1 = (r, s')"
    by (cases "requestCache_settle (length (calls s)) ?s1")
  from requestCache_trace [of e key options s] obtain ks1 where
    k1: "trace ?s1 = trace s @ ks1" "filter (\<lambda>ev. \<not> is_inline ev) ks1 = []" by auto
  from requestCache_settle_trace [of "length (calls s)" ?s1] rs
  have k0: "trace s' = trace ?s1" by simp
  from RequestCache.IH [of "k r" s'] obtain ks2 where
    k2: "trace (snd (run_handler (k r) e s')) = trace s' @ ks2"
      "filter (\<lambda>ev. \<not> is_inline ev) ks2 = []"
    by auto
  show ?case
    apply (rule exI [of _ "ks1 @ ks2"])
    using rs k0 k1 k2 by simp
next
  case (Begin key options prog)
  let ?s1 = "requestCache e key options s"
  from requestCache_trace [of e key options s] obtain ks1 where
    k1: "trace ?s1 = trace s @ ks1" "filter (\<lambda>ev. \<not> is_inline ev) ks1 = []" by auto
  from Begin.IH [of ?s1] obtain ks2 where
    k2: "trace (snd (run_handler prog e ?s1)) = trace ?s1 @ ks2"
      "filter (\<lambda>ev. \<not> is_inline ev) ks2 = []"
    by auto
  show ?case
    apply (rule exI [of _ "ks1 @ ks2"])
    using k1 k2 by simp
next
  case (Settle i k)
  obtain r s' where rs: "requestCache_settle i s = (r, s')"
    by (cases "requestCache_settle i s")
  from requestCache_settle_trace [of i s] rs have k0: "trace s' = trace s" by simp
  from Settle.IH [of "k r" s'] obtain ks2 where
    k2: "trace (snd (run_handler (k r) e s')) = trace s' @ ks2"
      "filter (\<lambda>ev. \<not> is_inline ev) ks2 = []"
    by auto
  show ?case
    apply (rule exI [of _ ks2])
    using rs k0 k2 by simp
qed simp_all

subsection \<open>The stages, one by one\<close>

lemma handleAction_dispatch:
  "action p \<noteq> ''task'' \<Longrightarrow> prepare e p = (evs, Inr q) \<Longrightarrow> handleAction e p = dispatch e p q evs"
  by (simp add: handleAction_def)

lemma handleAction_rejected_early:
  "action p \<noteq> ''task'' \<Longrightarrow> prepare e p = (evs, Inl err) \<Longrightarrow>
   handleAction e p = \<lparr>rejected = Some err, events = evs, final_responder = None\<rparr>"
  by (simp add: handleAction_def)

lemma only_inline_no_send:
  "filter (\<lambda>ev. \<not> is_inline ev) ks = [] \<Longrightarrow> sends ks = []"
  by (induction ks) (auto simp: sends_def split: if_splits elim: is_inline.elims)

lemma sends_append: "sends (xs @ ys) = sends xs @ sends ys"
  by (simp add: sends_def)

lemma migrate_response_events:
  "migrate_response e act ctx inp out = (evs, r) \<Longrightarrow>
   evs = [case Option.bind (migrations e act) m_response of
            None \<Rightarrow> EvValidatorResponse out | Some f \<Rightarrow> EvMigrationResponse act inp out]"
  by (auto simp: migrate_response_def split: option.splits)

lemma prepare_migrate_sends:
  "prepare_migrate e p h evs sd = (evs', r) \<Longrightarrow> sends evs = [] \<Longrightarrow> sends evs' = []"
  by (auto simp: prepare_migrate_def Let_def sends_def migrate_request_def
      split: prod.splits sum.splits option.splits)

lemma prepare_sends:
  assumes "prepare e p = (evs, r)"
  shows "sends evs = []"
proof (cases "getActionHandler e (action p)")
  case (Inl err)
  with assms show ?thesis by (auto simp: prepare_def sends_def)
next
  case (Inr h)
  show ?thesis
  proof (cases "auth_exempt e (action p)")
    case True
    with Inr assms have "prepare_migrate e p h [EvGetActionHandler (action p)] VNull = (evs, r)"
      by (simp add: prepare_def)
    then show ?thesis by (rule prepare_migrate_sends) (simp add: sends_def)
  next
    case False
    show ?thesis
    proof (cases "validateSignature e (sig p)")
      case (Inl err)
      with Inr False assms show ?thesis by (auto simp: prepare_def sends_def)
    next
      case (Inr sd)
      with \<open>getActionHandler e (action p) = Inr h\<close> False assms
      have "prepare_migrate e p h [EvGetActionHandler (action p), EvValidateSignature (sig p)] sd
              = (evs, r)"
        by (simp add: prepare_def)
      then show ?thesis by (rule prepare_migrate_sends) (simp add: sends_def)
    qed
  qed
qed

lemma handler_run_trace:
  assumes "handler_run e p q s = (r, s1)"
  shows "\<exists>ks. trace s1 = trace s @ EvHandler (p_input q) (sigData (p_ctx q)) # ks \<and>
              filter (\<lambda>ev. \<not> is_inline ev) ks = []"
proof -
  let ?s = "emit [EvHandler (p_input q) (sigData (p_ctx q))] s"
  obtain prog where run: "handler_run e p q s = run_handler prog e ?s"
    by (simp add: handler_run_def Let_def)
  from run_handler_trace [of prog e ?s] obtain ks where
    "trace (snd (run_handler prog e ?s)) = trace ?s @ ks" "filter (\<lambda>ev. \<not> is_inline ev) ks = []"
    by blast
  moreover from run assms have "snd (run_handler prog e ?s) = s1" by (metis snd_conv)
  ultimately show ?thesis by (simp add: emit_def)
qed

lemma handler_run_sends:
  "handler_run e p q s = (r, s1) \<Longrightarrow> sends (trace s1) = sends (trace s)"
  using handler_run_trace [of e p q s r s1] only_inline_no_send
  by (auto simp: sends_append sends_def)

lemma invoke_sends:
  "invoke e p q s = (r, s1) \<Longrightarrow> sends (trace s1) = sends (trace s)"
  by (auto simp: invoke_def emit_def sends_append split: prod.splits sum.splits if_splits
      dest!: handler_run_sends migrate_response_events) (auto simp: sends_def split: option.splits)

lemma try_block_sends:
  "try_block e p q s = (r, s1) \<Longrightarrow> sends (trace s1) = sends (trace s)"
  by (auto simp: try_block_def emit_def sends_append split: prod.splits sum.splits option.splits
      dest!: invoke_sends) (auto simp: sends_def)

lemma catch_block_sends:
  "catch_block err s = (r, s1) \<Longrightarrow> sends (trace s1) = sends (trace s)"
  by (auto simp: catch_block_def emit_def Let_def sends_def
      split: thrown.splits sum.splits option.splits if_splits)

lemma start_sends: "sends evs = [] \<Longrightarrow> sends (trace (start e evs)) = []"
  by (simp add: start_def sends_def)

lemma send_response_fresh:
  "send_response (Responder rec) sc out evs =
     \<lparr>rejected = None,
      events = evs @ [EvSend (response_type out) sc out, EvSetSendResponse],
      final_responder =
        Some \<lparr>recordedExchange = map_option (\<lambda>d. d\<lparr>rd_output := Some out\<rparr>) rec,
              attached = False, closed = True\<rparr>\<rparr>"
  by (simp add: send_response_def send_def Responder_def setSendResponse_def)

lemma send_closed: "closed r \<Longrightarrow> isl (send r ty sc b)"
  by (simp add: send_def)

lemma catch_block_short_circuit:
  "catch_block (CacheFoundError res cached) s =
     (Inr (if res \<noteq> VUndefined then (200, res) else (500, VObj [(''error'', cached)])), s)"
  by (simp add: catch_block_def)

lemma get_property_defined:
  "v \<noteq> VNull \<Longrightarrow> v \<noteq> VUndefined \<Longrightarrow> \<exists>x. get_property v name = Inr x"
  by (cases v) simp_all

lemma catch_block_error:
  assumes "v \<noteq> VNull" "v \<noteq> VUndefined"
    and "\<forall>c. inlineCache s = Some c \<longrightarrow> inline_setError c v = None"
  shows "\<exists>m quiet. get_property v ''message'' = Inr m \<and> get_property v ''noBacktraceLog'' = Inr quiet \<and>
           catch_block (Exn v) s =
             (Inr (500, VObj [(''error'', if truthy m then m else v)]),
              emit ((case inlineCache s of None \<Rightarrow> [] | Some c \<Rightarrow> [EvSetError v]) @
                    (if truthy quiet then [] else [EvWarn v])) s)"
proof -
  from assms(1,2) obtain m where m: "get_property v ''message'' = Inr m"
    using get_property_defined by blast
  from assms(1,2) obtain quiet where q: "get_property v ''noBacktraceLog'' = Inr quiet"
    using get_property_defined by blast
  show ?thesis
    using m q assms(3)
    by (cases "inlineCache s") (auto simp: catch_block_def emit_def Let_def)
qed

lemma prepare_migrate_Inr:
  assumes "prepare_migrate e p h evs0 sd = (evs, Inr q)"
  shows "p_handler q = h \<and> sigData (p_ctx q) = sd \<and>
         validator (p_ctx q) = getActionValidator e (getType e) (action p) \<and>
         evs = evs0 @ [EvGetActionValidator (getType e) (action p), request_event e p] \<and>
         (case Option.bind (migrations e (action p)) m_request of
            None \<Rightarrow> v_request (getActionValidator e (getType e) (action p)) (input p) = Inr (p_input q)
          | Some f \<Rightarrow>
              \<exists>d. f \<lparr>data = VObj [], sigData = sd,
                      validator = getActionValidator e (getType e) (action p)\<rparr> (input p)
                   = Inr (d, p_input q))"
  using assms
  by (auto simp: prepare_migrate_def Let_def migrate_request_def request_event_def
      split: prod.splits sum.splits option.splits)

lemma prepare_migrate_Inl:
  assumes "prepare_migrate e p h evs0 sd = (evs, Inl err)"
  shows "evs = evs0 @ [EvGetActionValidator (getType e) (action p), request_event e p]"
  using assms
  by (auto simp: prepare_migrate_def Let_def migrate_request_def request_event_def
      split: prod.splits sum.splits option.splits)

lemma prepare_Inr:
  assumes "prepare e p = (evs, Inr q)"
  shows "getActionHandler e (action p) = Inr (p_handler q) \<and>
         (if auth_exempt e (action p) then sigData (p_ctx q) = VNull
          else validateSignature e (sig p) = Inr (sigData (p_ctx q))) \<and>
         validator (p_ctx q) = getActionValidator e (getType e) (action p) \<and>
         evs = EvGetActionHandler (action p) #
               (if auth_exempt e (action p) then [] else [EvValidateSignature (sig p)]) @
               [EvGetActionValidator (getType e) (action p), request_event e p] \<and>
         (case Option.bind (migrations e (action p)) m_request of
            None \<Rightarrow> v_request (getActionValidator e (getType e) (action p)) (input p) = Inr (p_input q)
          | Some f \<Rightarrow>
              \<exists>d. f \<lparr>data = VObj [], sigData = sigData (p_ctx q),
                      validator = getActionValidator e (getType e) (action p)\<rparr> (input p)
                   = Inr (d, p_input q))"
proof (cases "getActionHandler e (action p)")
  case (Inl err)
  with assms show ?thesis by (simp add: prepare_def)
next
  case (Inr h)
  show ?thesis
  proof (cases "auth_exempt e (action p)")
    case True
    with Inr assms have "prepare_migrate e p h [EvGetActionHandler (action p)] VNull = (evs, Inr q)"
      by (simp add: prepare_def)
    from prepare_migrate_Inr [OF this] Inr True show ?thesis by (auto split: option.splits)
  next
    case False
    show ?thesis
    proof (cases "validateSignature e (sig p)")
      case (Inl err)
      with Inr False assms show ?thesis by (simp add: prepare_def)
    next
      case (Inr sd)
      with \<open>getActionHandler e (action p) = Inr h\<close> False assms
      have "prepare_migrate e p h [EvGetActionHandler (action p), EvValidateSignature (sig p)] sd
              = (evs, Inr q)"
        by (simp add: prepare_def)
      from prepare_migrate_Inr [OF this] Inr False \<open>getActionHandler e (action p) = Inr h\<close>
      show ?thesis by (auto split: option.splits)
    qed
  qed
qed


lemma only_inline_filter:
  "filter (\<lambda>ev. \<not> is_inline ev) ks = [] \<Longrightarrow> (\<And>ev. is_inline ev \<Longrightarrow> \<not> P ev) \<Longrightarrow> filter P ks = []"
  by (induction ks) (auto split: if_splits)

lemma request_event_kind:
  "is_transform (request_event e p)" "\<not> is_warn (request_event e p)"
  "\<not> is_send (request_event e p)" "\<not> is_late_step (request_event e p)"
  "\<not> is_handler_call (request_event e p)" "\<not> is_validateSignature (request_event e p)"
  by (simp_all add: request_event_def split: option.splits)

lemma response_event_kind:
  "is_transform (response_event e p q out)" "\<not> is_warn (response_event e p q out)"
  "\<not> is_send (response_event e p q out)" "is_late_step (response_event e p q out)"
  "\<not> is_handler_call (response_event e p q out)"
  "\<not> is_validateSignature (response_event e p q out)"
  by (simp_all add: response_event_def split: option.splits)

lemma migrate_response_eq:
  "migrate_response e (action p) (p_ctx q) (p_input q) out =
     ([response_event e p q out],
      case Option.bind (migrations e (action p)) m_response of
        None \<Rightarrow> v_response (validator (p_ctx q)) out
      | Some g \<Rightarrow> g (p_ctx q) (p_input q) out)"
  by (simp add: migrate_response_def response_event_def split: option.splits)

text \<open>The trace when the handler has run: the early calls, the clone, the call, the lookups.\<close>

lemma handler_run_start:
  assumes "prepare e p = (evs, Inr q)" and "handler_run e p q (start e evs) = (hr, s1)"
  shows "\<exists>ks. trace s1 =
            EvGetActionHandler (action p) #
            (if auth_exempt e (action p) then [] else [EvValidateSignature (sig p)]) @
            [EvGetActionValidator (getType e) (action p), request_event e p,
             EvCacheClone (getId e) (getDefaultCacheOptions e),
             EvHandler (p_input q) (sigData (p_ctx q))] @ ks \<and>
            filter (\<lambda>ev. \<not> is_inline ev) ks = []"
proof -
  from handler_run_trace [OF assms(2)] obtain ks where
    "trace s1 = trace (start e evs) @ EvHandler (p_input q) (sigData (p_ctx q)) # ks"
    "filter (\<lambda>ev. \<not> is_inline ev) ks = []" by blast
  with prepare_Inr [OF assms(1)] show ?thesis by (simp add: start_def)
qed

lemma handler_run_quiet:
  assumes "prepare e p = (evs, Inr q)" and "handler_run e p q (start e evs) = (hr, s1)"
  shows "filter is_warn (trace s1) = []" "filter is_late_step (trace s1) = []"
    "sends (trace s1) = []"
    "filter is_transform (trace s1) = [request_event e p]"
    "filter is_handler_call (trace s1) = [EvHandler (p_input q) (sigData (p_ctx q))]"
    "filter is_validateSignature (trace s1) =
       (if auth_exempt e (action p) then [] else [EvValidateSignature (sig p)])"
proof -
  from handler_run_start [OF assms] obtain ks where
    tr: "trace s1 =
            EvGetActionHandler (action p) #
            (if auth_exempt e (action p) then [] else [EvValidateSignature (sig p)]) @
            [EvGetActionValidator (getType e) (action p), request_event e p,
             EvCacheClone (getId e) (getDefaultCacheOptions e),
             EvHandler (p_input q) (sigData (p_ctx q))] @ ks"
    and ks: "filter (\<lambda>ev. \<not> is_inline ev) ks = []" by blast
  have k1: "filter is_warn ks = []" by (rule only_inline_filter [OF ks]) (erule is_inline.elims, simp)
  have k2: "filter is_late_step ks = []"
    by (rule only_inline_filter [OF ks]) (erule is_inline.elims, simp)
  have k3: "filter is_send ks = []" by (rule only_inline_filter [OF ks]) (erule is_inline.elims, simp)
  have k4: "filter is_transform ks = []"
    by (rule only_inline_filter [OF ks]) (erule is_inline.elims, simp)
  have k5: "filter is_handler_call ks = []"
    by (rule only_inline_filter [OF ks]) (erule is_inline.elims, simp)
  have k6: "filter is_validateSignature ks = []"
    by (rule only_inline_filter [OF ks]) (erule is_inline.elims, simp)
  show "filter is_warn (trace s1) = []" by (simp add: tr k1 request_event_kind)
  show "filter is_late_step (trace s1) = []" by (simp add: tr k2 request_event_kind)
  show "sends (trace s1) = []" by (simp add: sends_def tr k3 request_event_kind)
  show "filter is_transform (trace s1) = [request_event e p]"
    by (simp add: tr k4 request_event_kind)
  show "filter is_handler_call (trace s1) = [EvHandler (p_input q) (sigData (p_ctx q))]"
    by (simp add: tr k5 request_event_kind)
  show "filter is_validateSignature (trace s1) =
       (if auth_exempt e (action p) then [] else [EvValidateSignature (sig p)])"
    by (simp add: tr k6 request_event_kind)
qed

lemma invoke_after_handler:
  assumes "handler_run e p q s = (hr, s1)"
  shows "invoke e p q s =
     (case hr of
        Inl err \<Rightarrow> (Inl err, s1)
      | Inr out \<Rightarrow>
          if (action p = ''resolve'' \<or> action p = ''captcha'') \<and> out = VNull
          then (Inl (Exn (new_Error ''Nothing found'')), s1)
          else (snd (migrate_response e (action p) (p_ctx q) (p_input q) out),
                emit [response_event e p q out] s1))"
  using assms by (simp add: invoke_def migrate_response_eq split: sum.splits)

text \<open>The outcome once the \<open>try\<close> has ended, by the way it ended.\<close>

lemma dispatch_returned:
  "try_block e p q (start e evs) = (Inr out, s1) \<Longrightarrow>
   dispatch e p q evs = send_response (Responder (request_record e p q)) 200 out (trace s1)"
  by (simp add: dispatch_def)

lemma dispatch_short_circuit:
  "try_block e p q (start e evs) = (Inl (CacheFoundError res cached), s1) \<Longrightarrow>
   dispatch e p q evs =
     (if res \<noteq> VUndefined
      then send_response (Responder (request_record e p q)) 200 res (trace s1)
      else send_response (Responder (request_record e p q)) 500 (VObj [(''error'', cached)])
             (trace s1))"
  by (simp add: dispatch_def catch_block_short_circuit)

lemma dispatch_caught:
  "try_block e p q (start e evs) = (Inl err, s1) \<Longrightarrow>
   catch_block err s1 = (Inr (statusCode, out), s2) \<Longrightarrow>
   dispatch e p q evs =
     send_response (Responder (request_record e p q)) statusCode out (trace s2)"
  by (simp add: dispatch_def)

lemma try_block_thrown:
  "invoke e p q s = (Inl err, s1) \<Longrightarrow> try_block e p q s = (Inl err, s1)"
  by (simp add: try_block_def)

lemma response_type_error [simp]: "response_type (VObj [(''error'', x)]) = ''response''"
  by (simp add: response_type_def)

lemma try_block_late:
  assumes "handler_run e p q s = (hr, sh)" and "try_block e p q s = (r, s1)"
  shows "\<exists>late. trace s1 = trace sh @ late \<and> inlineCache s1 = inlineCache sh \<and>
           filter is_warn late = [] \<and> filter is_send late = [] \<and>
           filter is_handler_call late = [] \<and> filter is_validateSignature late = [] \<and>
           filter (\<lambda>ev. \<not> is_late_step ev) late = []"
  using assms
  by (auto simp: try_block_def invoke_after_handler emit_def response_event_kind
      split: sum.splits if_splits option.splits prod.splits)

lemma try_block_quiet:
  assumes "prepare e p = (evs, Inr q)" and "try_block e p q (start e evs) = (r, s1)"
  shows "filter is_warn (trace s1) = []" "sends (trace s1) = []"
proof -
  obtain hr sh where hr: "handler_run e p q (start e evs) = (hr, sh)"
    by (cases "handler_run e p q (start e evs)")
  from try_block_late [OF hr assms(2)] obtain late where
    "trace s1 = trace sh @ late" "filter is_warn late = []" "filter is_send late = []" by blast
  with handler_run_quiet [OF assms(1) hr]
  show "filter is_warn (trace s1) = []" "sends (trace s1) = []"
    by (simp_all add: sends_def)
qed

lemma only_closing_filter:
  "filter (\<lambda>ev. \<not> is_closing ev) ks = [] \<Longrightarrow> (\<And>ev. is_closing ev \<Longrightarrow> \<not> P ev) \<Longrightarrow> filter P ks = []"
  by (induction ks) (auto split: if_splits)

lemma catch_block_closing:
  assumes "catch_block err s = (r, s')"
  shows "\<exists>ks. trace s' = trace s @ ks \<and> inlineCache s' = inlineCache s \<and>
              filter (\<lambda>ev. \<not> is_closing ev) ks = [] \<and>
              (\<forall>v c. err = Exn v \<and> inlineCache s = Some c \<longrightarrow> (\<exists>ks'. ks = EvSetError v # ks'))"
  using assms
  by (cases err; cases "inlineCache s")
     (auto simp: catch_block_def emit_def Let_def split: sum.splits option.splits if_splits)

lemma send_response_closing:
  "\<exists>ks. events (send_response r statusCode out evs) = evs @ ks \<and>
        filter (\<lambda>ev. \<not> is_closing ev) ks = []"
  by (simp add: send_response_def split: sum.splits)

lemma try_block_after_invoke:
  assumes "invoke e p q s = (r, s1)"
  shows "try_block e p q s =
     (case r of
        Inl err \<Rightarrow> (Inl err, s1)
      | Inr out \<Rightarrow>
          (case inlineCache s1 of
             None \<Rightarrow> (Inr out, s1)
           | Some c \<Rightarrow>
               (case inline_set c out of
                  Some err \<Rightarrow> (Inl err, emit [EvSet out] s1)
                | None \<Rightarrow> (Inr out, emit [EvSet out] s1))))"
  using assms by (simp add: try_block_def)

lemma try_block_closing:
  assumes "invoke e p q s = (r, s1)" and "try_block e p q s = (r', s2)"
  shows "\<exists>ks. trace s2 = trace s1 @ ks \<and> filter (\<lambda>ev. \<not> is_closing ev) ks = [] \<and>
              (\<forall>out c. r = Inr out \<and> inlineCache s1 = Some c \<longrightarrow> ks = [EvSet out]) \<and>
              (\<forall>err. r = Inl err \<longrightarrow> ks = [] \<and> r' = Inl err \<and> s2 = s1)"
  using assms(2)
  by (auto simp: try_block_after_invoke [OF assms(1)] emit_def split: sum.splits option.splits)

lemma dispatch_events:
  assumes "try_block e p q (start e evs) = (r, s1)"
  shows "\<exists>ks. events (dispatch e p q evs) = trace s1 @ ks \<and>
              filter (\<lambda>ev. \<not> is_closing ev) ks = [] \<and>
              (\<forall>v c. r = Inl (Exn v) \<and> inlineCache s1 = Some c \<longrightarrow> (\<exists>ks'. ks = EvSetError v # ks'))"
proof (cases r)
  case (Inr out)
  with assms have d: "dispatch e p q evs =
      send_response (Responder (request_record e p q)) 200 out (trace s1)"
    by (simp add: dispatch_returned)
  from send_response_closing [of "Responder (request_record e p q)" 200 out "trace s1"] Inr
  show ?thesis unfolding d by auto
next
  case (Inl err)
  obtain r2 s2 where cb: "catch_block err s1 = (r2, s2)" by (cases "catch_block err s1")
  from catch_block_closing [OF cb] obtain ks where
    ks: "trace s2 = trace s1 @ ks" "filter (\<lambda>ev. \<not> is_closing ev) ks = []"
      "\<forall>v c. err = Exn v \<and> inlineCache s1 = Some c \<longrightarrow> (\<exists>ks'. ks = EvSetError v # ks')"
    by blast
  show ?thesis
  proof (cases r2)
    case (Inl err')
    with \<open>r = Inl err\<close> assms cb have "events (dispatch e p q evs) = trace s2"
      by (simp add: dispatch_def)
    with ks \<open>r = Inl err\<close> show ?thesis by auto
  next
    case (Inr so)
    obtain sc out where so: "so = (sc, out)" by (cases so)
    with Inr \<open>r = Inl err\<close> assms cb have d: "dispatch e p q evs =
        send_response (Responder (request_record e p q)) sc out (trace s2)"
      by (simp add: dispatch_caught)
    from send_response_closing [of "Responder (request_record e p q)" sc out "trace s2"]
    obtain ks2 where "events (dispatch e p q evs) = trace s2 @ ks2"
      "filter (\<lambda>ev. \<not> is_closing ev) ks2 = []" unfolding d by blast
    with ks \<open>r = Inl err\<close> show ?thesis by auto
  qed
qed

lemma dispatch_after_invoke:
  assumes "invoke e p q (start e evs) = (r, s1)"
  shows "\<exists>ks. events (dispatch e p q evs) = trace s1 @ ks \<and>
              filter (\<lambda>ev. \<not> is_closing ev) ks = [] \<and>
              (\<forall>out c. r = Inr out \<and> inlineCache s1 = Some c \<longrightarrow> (\<exists>ks'. ks = EvSet out # ks')) \<and>
              (\<forall>v c. r = Inl (Exn v) \<and> inlineCache s1 = Some c \<longrightarrow>
                 (\<exists>ks'. ks = EvSetError v # ks'))"
proof -
  obtain r' s2 where tb: "try_block e p q (start e evs) = (r', s2)"
    by (cases "try_block e p q (start e evs)")
  from try_block_closing [OF assms tb] obtain k1 where
    k1: "trace s2 = trace s1 @ k1" "filter (\<lambda>ev. \<not> is_closing ev) k1 = []"
      "\<forall>out c. r = Inr out \<and> inlineCache s1 = Some c \<longrightarrow> k1 = [EvSet out]"
      "\<forall>err. r = Inl err \<longrightarrow> k1 = [] \<and> r' = Inl err \<and> s2 = s1"
    by (elim exE conjE) (rule that, assumption+)
  from dispatch_events [OF tb] obtain k2 where
    k2: "events (dispatch e p q evs) = trace s2 @ k2" "filter (\<lambda>ev. \<not> is_closing ev) k2 = []"
      "\<forall>v c. r' = Inl (Exn v) \<and> inlineCache s2 = Some c \<longrightarrow> (\<exists>ks'. k2 = EvSetError v # ks')"
    by blast
  show ?thesis
    apply (rule exI [of _ "k1 @ k2"])
    using k1 k2 by auto
qed

lemma invoke_trace:
  assumes "handler_run e p q s = (hr, sh)" and "invoke e p q s = (r, s1)"
  shows "inlineCache s1 = inlineCache sh \<and>
         (trace s1 = trace sh \<or> (\<exists>out. hr = Inr out \<and> trace s1 = trace sh @ [response_event e p q out]))"
  using assms by (auto simp: invoke_after_handler emit_def split: sum.splits if_splits)

lemma dispatch_filters:
  assumes "prepare e p = (evs, Inr q)"
  shows "filter is_handler_call (events (dispatch e p q evs)) =
           [EvHandler (p_input q) (sigData (p_ctx q))]"
    and "filter is_validateSignature (events (dispatch e p q evs)) =
           (if auth_exempt e (action p) then [] else [EvValidateSignature (sig p)])"
    and "\<exists>rest. events (dispatch e p q evs) = evs @ rest"
proof -
  obtain hr sh where hr: "handler_run e p q (start e evs) = (hr, sh)"
    by (cases "handler_run e p q (start e evs)")
  obtain r s1 where inv: "invoke e p q (start e evs) = (r, s1)"
    by (cases "invoke e p q (start e evs)")
  from dispatch_after_invoke [OF inv] obtain ks where
    ev: "events (dispatch e p q evs) = trace s1 @ ks" and
    ks: "filter (\<lambda>ev. \<not> is_closing ev) ks = []" by blast
  have k1: "filter is_handler_call ks = []"
    by (rule only_closing_filter [OF ks]) (erule is_closing.elims, simp_all)
  have k2: "filter is_validateSignature ks = []"
    by (rule only_closing_filter [OF ks]) (erule is_closing.elims, simp_all)
  from invoke_trace [OF hr inv] have
    t1: "filter is_handler_call (trace s1) = filter is_handler_call (trace sh)" and
    t2: "filter is_validateSignature (trace s1) = filter is_validateSignature (trace sh)" and
    t3: "\<exists>xs. trace s1 = trace sh @ xs"
    by (auto simp: response_event_kind)
  show "filter is_handler_call (events (dispatch e p q evs)) =
           [EvHandler (p_input q) (sigData (p_ctx q))]"
    by (simp add: ev k1 t1 handler_run_quiet(5) [OF assms hr])
  show "filter is_validateSignature (events (dispatch e p q evs)) =
           (if auth_exempt e (action p) then [] else [EvValidateSignature (sig p)])"
    by (simp add: ev k2 t2 handler_run_quiet(6) [OF assms hr])
  from handler_run_trace [OF hr] obtain xs where "trace sh = trace (start e evs) @ xs" by auto
  with t3 ev show "\<exists>rest. events (dispatch e p q evs) = evs @ rest"
    by (auto simp: start_def)
qed

lemma prepare_Inl:
  assumes "prepare e p = (evs, Inl err)" and "getActionHandler e (action p) = Inr h"
  shows "if auth_exempt e (action p)
         then evs = [EvGetActionHandler (action p), EvGetActionValidator (getType e) (action p),
                     request_event e p]
         else (case validateSignature e (sig p) of
                 Inl err' \<Rightarrow> err' = err \<and>
                   evs = [EvGetActionHandler (action p), EvValidateSignature (sig p)]
               | Inr sd \<Rightarrow>
                   evs = [EvGetActionHandler (action p), EvValidateSignature (sig p),
                          EvGetActionValidator (getType e) (action p), request_event e p])"
proof (cases "auth_exempt e (action p)")
  case True
  with assms have "prepare_migrate e p h [EvGetActionHandler (action p)] VNull = (evs, Inl err)"
    by (simp add: prepare_def)
  from prepare_migrate_Inl [OF this] True show ?thesis by simp
next
  case False
  show ?thesis
  proof (cases "validateSignature e (sig p)")
    case (Inl err')
    with False assms show ?thesis by (auto simp: prepare_def)
  next
    case (Inr sd)
    with False assms
    have "prepare_migrate e p h [EvGetActionHandler (action p), EvValidateSignature (sig p)] sd
            = (evs, Inl err)"
      by (simp add: prepare_def)
    from prepare_migrate_Inl [OF this] False Inr show ?thesis by simp
  qed
qed

lemma handler_call_in_filter:
  "EvHandler inp sd \<in> set xs \<Longrightarrow> EvHandler inp sd \<in> set (filter is_handler_call xs)"
  by simp

text \<open>A caught failure that can be recorded and read is answered with status 500.\<close>

lemma dispatch_failure:
  assumes "try_block e p q (start e evs) = (Inl (Exn v), s1)"
    and "v \<noteq> VNull" and "v \<noteq> VUndefined"
    and "\<forall>c. inlineCache s1 = Some c \<longrightarrow> inline_setError c v = None"
  shows "\<exists>m quiet.
           get_property v ''message'' = Inr m \<and>
           get_property v ''noBacktraceLog'' = Inr quiet \<and>
           dispatch e p q evs =
             send_response (Responder (request_record e p q)) 500
               (VObj [(''error'', if truthy m then m else v)])
               (trace s1 @ (case inlineCache s1 of None \<Rightarrow> [] | Some c \<Rightarrow> [EvSetError v]) @
                  (if truthy quiet then [] else [EvWarn v]))"
proof -
  from catch_block_error [OF assms(2,3,4)] obtain m quiet where
    m: "get_property v ''message'' = Inr m" and
    quiet: "get_property v ''noBacktraceLog'' = Inr quiet" and
    cb: "catch_block (Exn v) s1 =
           (Inr (500, VObj [(''error'', if truthy m then m else v)]),
            emit ((case inlineCache s1 of None \<Rightarrow> [] | Some c \<Rightarrow> [EvSetError v]) @
                  (if truthy quiet then [] else [EvWarn v])) s1)"
    by blast
  from dispatch_caught [OF assms(1) cb] m quiet show ?thesis by (simp add: emit_def)
qed

section \<open>The claims\<close>

subsection \<open>Task redirection\<close>

text \<open>
  C6. An invocation whose action is \<open>task\<close> is handed to \<open>handleTask\<close> and returns with
  what \<open>handleTask\<close> did. The call of \<open>handleTask\<close> is the only call made: no handler
  is resolved, no signature is validated, no request or response is migrated, no cache
  handle is derived, and no responder is built, so the generic respond and error path
  is never entered.
\<close>

theorem task_redirect:
  assumes "action p = ''task''"
  shows "handleAction e p =
           \<lparr>rejected = handleTask e (input p), events = [EvHandleTask (input p)],
            final_responder = None\<rparr>"
  using assms by (simp add: handleAction_def)

theorem task_redirect_witness:
  "action (demo_props ''task'' (VStr ''t1'') '''') = ''task'' \<and>
   handleAction demo_env (demo_props ''task'' (VStr ''t1'') '''') =
     \<lparr>rejected = None, events = [EvHandleTask (VStr ''t1'')], final_responder = None\<rparr>"
  using task_redirect [of "demo_props ''task'' (VStr ''t1'') ''''" demo_env]
  by (simp add: demo_defs)

subsection \<open>One inline entry per invocation\<close>




subsection \<open>Exactly one response\<close>

text \<open>
  C1 (amended). Take an invocation whose action is not \<open>task\<close> and whose steps 2 to 4
  (handler resolution, signature validation, request migration) succeed, so that the
  \<open>try\<close> of line 139 is entered. Whatever the \<open>try\<close> does (success, task-shaped output,
  cache short-circuit, or a failure of the handler, of the default errors, of the
  response migration or of \<open>set\<close>), provided a caught failure is neither \<open>null\<close> nor
  \<open>undefined\<close> and \<open>setError\<close>, when an entry is engaged, does not fail on it:
  \<open>handleAction\<close> returns normally, it has called \<open>responder.send\<close> exactly once, and
  any further \<open>send\<close> on that responder fails. The last part rests on the model of
  the \<open>Responder\<close> taken from the specification.

  As stated the claim also covers failures of steps 2 to 4. These lie outside the
  \<open>try\<close> and before the responder is built: \<open>handleAction\<close> rejects and sends nothing,
  as the counterexample shows for an action without handler.
\<close>

theorem exactly_one_send:
  assumes "action p \<noteq> ''task''"
    and "prepare e p = (evs, Inr q)"
    and "try_block e p q (start e evs) = (r, s1)"
    and "\<forall>v. r = Inl (Exn v) \<longrightarrow> v \<noteq> VNull \<and> v \<noteq> VUndefined \<and>
           (\<forall>c. inlineCache s1 = Some c \<longrightarrow> inline_setError c v = None)"
  shows "rejected (handleAction e p) = None \<and>
         length (sends (events (handleAction e p))) = 1 \<and>
         (\<exists>r'. final_responder (handleAction e p) = Some r' \<and>
               (\<forall>ty statusCode body. isl (send r' ty statusCode body)))"
proof -
  have ha: "handleAction e p = dispatch e p q evs"
    using assms(1,2) by (rule handleAction_dispatch)
  have s0: "sends (trace s1) = []"
    using try_block_sends [OF assms(3)] start_sends [OF prepare_sends [OF assms(2)]] by simp
  have fresh: "\<And>rec sc out tr. sends tr = [] \<Longrightarrow>
      rejected (send_response (Responder rec) sc out tr) = None \<and>
      length (sends (events (send_response (Responder rec) sc out tr))) = 1 \<and>
      (\<exists>r'. final_responder (send_response (Responder rec) sc out tr) = Some r' \<and>
            (\<forall>ty statusCode body. isl (send r' ty statusCode body)))"
    by (simp add: send_response_fresh sends_append send_closed) (simp add: sends_def)
  show ?thesis
  proof (cases r)
    case (Inr out)
    with assms(3) have "dispatch e p q evs =
        send_response (Responder (request_record e p q)) 200 out (trace s1)"
      by (simp add: dispatch_def)
    with ha fresh [OF s0] show ?thesis by simp
  next
    case (Inl err)
    show ?thesis
    proof (cases err)
      case (CacheFoundError res cached)
      with Inl assms(3) have "\<exists>sc out. dispatch e p q evs =
          send_response (Responder (request_record e p q)) sc out (trace s1)"
        by (auto simp: dispatch_def catch_block_short_circuit)
      with ha fresh [OF s0] show ?thesis by auto
    next
      case (Exn v)
      with Inl assms(4) have ok: "v \<noteq> VNull" "v \<noteq> VUndefined"
        "\<forall>c. inlineCache s1 = Some c \<longrightarrow> inline_setError c v = None" by auto
      from catch_block_error [OF ok] obtain sc out s2 where
        cb: "catch_block (Exn v) s1 = (Inr (sc, out), s2)" by blast
      from catch_block_sends [OF cb] s0 have s2: "sends (trace s2) = []" by simp
      from Inl Exn assms(3) cb have "dispatch e p q evs =
          send_response (Responder (request_record e p q)) sc out (trace s2)"
        by (simp add: dispatch_def)
      with ha fresh [OF s2] show ?thesis by simp
    qed
  qed
qed

theorem exactly_one_send_witness:
  "action (demo_props ''source'' VNull ''good'') \<noteq> ''task'' \<and>
   rejected (handleAction demo_env (demo_props ''source'' VNull ''good'')) = None \<and>
   length (sends (events (handleAction demo_env (demo_props ''source'' VNull ''good'')))) = 1 \<and>
   (\<exists>r'. final_responder (handleAction demo_env (demo_props ''source'' VNull ''good'')) = Some r' \<and>
         isl (send r' ''response'' 200 VNull))"
proof -
  let ?p = "demo_props ''source'' VNull ''good''"
  define evs where "evs = fst (prepare demo_env ?p)"
  define q where "q = projr (snd (prepare demo_env ?p))"
  define r where "r = fst (try_block demo_env ?p q (start demo_env evs))"
  define s1 where "s1 = snd (try_block demo_env ?p q (start demo_env evs))"
  have 1: "action ?p \<noteq> ''task''" by (simp add: demo_props_def)
  have 2: "prepare demo_env ?p = (evs, Inr q)"
    unfolding evs_def q_def by (simp add: model_defs demo_defs)
  have 3: "try_block demo_env ?p q (start demo_env evs) = (r, s1)"
    unfolding r_def s1_def by simp
  have 4: "\<forall>v. r = Inl (Exn v) \<longrightarrow> v \<noteq> VNull \<and> v \<noteq> VUndefined \<and>
           (\<forall>c. inlineCache s1 = Some c \<longrightarrow> inline_setError c v = None)"
    unfolding r_def s1_def q_def evs_def by (simp add: model_defs demo_defs)
  from exactly_one_send [OF 1 2 3 4] 1 show ?thesis by blast
qed

theorem exactly_one_send_counterexample:
  "action (demo_props ''nope'' VNull ''good'') \<noteq> ''task'' \<and>
   rejected (handleAction demo_env (demo_props ''nope'' VNull ''good'')) =
     Some (Exn (new_Error ''No handler for action'')) \<and>
   sends (events (handleAction demo_env (demo_props ''nope'' VNull ''good''))) = []"
  by (simp add: model_defs demo_defs sends_def)

subsection \<open>Failures are answered with status 500\<close>

text \<open>
  C2 (amended). Take an invocation whose action is not \<open>task\<close> and whose steps 2 to 4
  succeed. If the \<open>try\<close> of line 139 ends with a thrown value \<open>v\<close> that is not a
  \<open>CacheFoundError\<close> (thrown by the handler, raised as the default "Nothing found",
  thrown by the response migration or by \<open>set\<close>), \<open>v\<close> is neither \<open>null\<close> nor
  \<open>undefined\<close>, and \<open>setError\<close> does not fail when an entry is engaged, then
  \<open>handleAction\<close> sends exactly the response of status 500 with payload
  \<open>{ error: v.message || v }\<close> (the message when it is truthy, the thrown value
  otherwise), and \<open>console.warn(v)\<close> is called exactly when \<open>v.noBacktraceLog\<close> is not
  truthy.

  As stated the claim also promises the status-500 response for the errors of handler
  resolution, signature validation and request migration. These are thrown before the
  \<open>try\<close>: \<open>handleAction\<close> rejects with the error, sends nothing and logs nothing, as the
  counterexample shows for an invalid signature.
\<close>

theorem error_respond:
  assumes "action p \<noteq> ''task''"
    and "prepare e p = (evs, Inr q)"
    and "try_block e p q (start e evs) = (Inl (Exn v), s1)"
    and "v \<noteq> VNull" and "v \<noteq> VUndefined"
    and "\<forall>c. inlineCache s1 = Some c \<longrightarrow> inline_setError c v = None"
  shows "\<exists>m quiet.
           get_property v ''message'' = Inr m \<and>
           get_property v ''noBacktraceLog'' = Inr quiet \<and>
           rejected (handleAction e p) = None \<and>
           sends (events (handleAction e p)) =
             [EvSend ''response'' 500 (VObj [(''error'', if truthy m then m else v)])] \<and>
           filter is_warn (events (handleAction e p)) = (if truthy quiet then [] else [EvWarn v])"
proof -
  from dispatch_failure [OF assms(3,4,5,6)] obtain m quiet where
    m: "get_property v ''message'' = Inr m" and
    quiet: "get_property v ''noBacktraceLog'' = Inr quiet" and
    d: "dispatch e p q evs =
          send_response (Responder (request_record e p q)) 500
            (VObj [(''error'', if truthy m then m else v)])
            (trace s1 @ (case inlineCache s1 of None \<Rightarrow> [] | Some c \<Rightarrow> [EvSetError v]) @
               (if truthy quiet then [] else [EvWarn v]))"
    by blast
  have ha: "handleAction e p =
      send_response (Responder (request_record e p q)) 500
        (VObj [(''error'', if truthy m then m else v)])
        (trace s1 @ (case inlineCache s1 of None \<Rightarrow> [] | Some c \<Rightarrow> [EvSetError v]) @
           (if truthy quiet then [] else [EvWarn v]))"
    using handleAction_dispatch [OF assms(1,2)] d by simp
  have "rejected (handleAction e p) = None"
    by (simp add: ha send_response_fresh)
  moreover have "sends (events (handleAction e p)) =
      [EvSend ''response'' 500 (VObj [(''error'', if truthy m then m else v)])]"
    using try_block_quiet(2) [OF assms(2,3)]
    by (simp add: ha send_response_fresh sends_append)
       (simp add: sends_def split: option.splits)
  moreover have "filter is_warn (events (handleAction e p)) =
      (if truthy quiet then [] else [EvWarn v])"
    using try_block_quiet(1) [OF assms(2,3)]
    by (simp add: ha send_response_fresh split: option.splits)
  ultimately show ?thesis using m quiet by blast
qed

theorem error_respond_witness:
  "action (demo_props ''source'' (VStr ''x'') ''good'') \<noteq> ''task'' \<and>
   rejected (handleAction demo_env (demo_props ''source'' (VStr ''x'') ''good'')) = None \<and>
   sends (events (handleAction demo_env (demo_props ''source'' (VStr ''x'') ''good''))) =
     [EvSend ''response'' 500 (VObj [(''error'', VStr ''quiet'')])] \<and>
   filter is_warn (events (handleAction demo_env (demo_props ''source'' (VStr ''x'') ''good''))) = []"
proof -
  let ?p = "demo_props ''source'' (VStr ''x'') ''good''"
  let ?v = "SilentError ''quiet''"
  define evs where "evs = fst (prepare demo_env ?p)"
  define q where "q = projr (snd (prepare demo_env ?p))"
  define s1 where "s1 = snd (try_block demo_env ?p q (start demo_env evs))"
  have 1: "action ?p \<noteq> ''task''" by (simp add: demo_props_def)
  have 2: "prepare demo_env ?p = (evs, Inr q)"
    unfolding evs_def q_def by (simp add: model_defs demo_defs)
  have 3: "try_block demo_env ?p q (start demo_env evs) = (Inl (Exn ?v), s1)"
    unfolding s1_def q_def evs_def by (simp add: model_defs demo_defs)
  have 4: "?v \<noteq> VNull" "?v \<noteq> VUndefined" by (simp_all add: SilentError_def)
  have 5: "\<forall>c. inlineCache s1 = Some c \<longrightarrow> inline_setError c ?v = None"
    unfolding s1_def q_def evs_def by (simp add: model_defs demo_defs)
  from error_respond [OF 1 2 3 4 5] 1 show ?thesis
    by (auto simp: SilentError_def)
qed

theorem error_respond_counterexample:
  "action (demo_props ''directory'' VNull ''bad'') \<noteq> ''task'' \<and>
   validateSignature demo_env ''bad'' = Inl (Exn (new_Error ''Invalid signature'')) \<and>
   rejected (handleAction demo_env (demo_props ''directory'' VNull ''bad'')) =
     Some (Exn (new_Error ''Invalid signature'')) \<and>
   events (handleAction demo_env (demo_props ''directory'' VNull ''bad'')) =
     [EvGetActionHandler ''directory'', EvValidateSignature ''bad'']"
  by (simp add: model_defs demo_defs)

subsection \<open>The cache short-circuit\<close>

text \<open>
  C3 (amended). Take an invocation whose action is not \<open>task\<close> and whose steps 2 to 4
  succeed. The inline lookup is made by \<open>requestCache\<close>, which only the invoked handler
  can call, so the handler is called, once, in any case. If its run ends with a
  \<open>CacheFoundError\<close> (the lookup threw it and the handler let it pass), then nothing
  else of steps 5 to 7 takes place: no default error, no response migration, no \<open>set\<close>,
  no \<open>setError\<close>, and no \<open>console.warn\<close>; the trace of the handler's run is followed
  by the send and the detaching of the responder only. The response has status 200 and
  the cached value when the error's \<open>result\<close> is defined, and status 500 with payload
  \<open>{ error: <the error's error field> }\<close> otherwise.

  As stated the claim lets the lookup's signal alone bypass the handler and the steps
  after it. The counterexample is a handler that catches what \<open>requestCache\<close> throws:
  the lookup signals the short-circuit with the cached value 42, and the handler runs
  on, its own result goes through the response migration and is sent with status 200.
\<close>

theorem short_circuit:
  assumes "action p \<noteq> ''task''"
    and "prepare e p = (evs, Inr q)"
    and "handler_run e p q (start e evs) = (Inl (CacheFoundError res cached), s1)"
  shows "rejected (handleAction e p) = None \<and>
         events (handleAction e p) =
           trace s1 @
           [if res \<noteq> VUndefined then EvSend (response_type res) 200 res
            else EvSend ''response'' 500 (VObj [(''error'', cached)]),
            EvSetSendResponse] \<and>
         filter is_handler_call (events (handleAction e p)) =
           [EvHandler (p_input q) (sigData (p_ctx q))] \<and>
         filter is_late_step (events (handleAction e p)) = [] \<and>
         filter is_warn (events (handleAction e p)) = []"
proof -
  have "invoke e p q (start e evs) = (Inl (CacheFoundError res cached), s1)"
    by (simp add: invoke_after_handler [OF assms(3)])
  then have "try_block e p q (start e evs) = (Inl (CacheFoundError res cached), s1)"
    by (rule try_block_thrown)
  from dispatch_short_circuit [OF this] handleAction_dispatch [OF assms(1,2)]
  have ha: "handleAction e p =
     (if res \<noteq> VUndefined
      then send_response (Responder (request_record e p q)) 200 res (trace s1)
      else send_response (Responder (request_record e p q)) 500 (VObj [(''error'', cached)])
             (trace s1))" by simp
  show ?thesis
    using handler_run_quiet(1,2,5) [OF assms(2,3)]
    by (simp add: ha send_response_fresh)
qed

theorem short_circuit_witness:
  "action (demo_props ''item'' (VStr ''hit'') ''good'') \<noteq> ''task'' \<and>
   cache_inline demo_env (VObj []) (VStr ''hit'') = Inl (CacheFoundError (VNum 42) VUndefined) \<and>
   rejected (handleAction demo_env (demo_props ''item'' (VStr ''hit'') ''good'')) = None \<and>
   sends (events (handleAction demo_env (demo_props ''item'' (VStr ''hit'') ''good''))) =
     [EvSend ''response'' 200 (VNum 42)] \<and>
   filter is_handler_call
     (events (handleAction demo_env (demo_props ''item'' (VStr ''hit'') ''good''))) =
     [EvHandler (VStr ''hit'') (VObj [(''user'', VStr ''u'')])] \<and>
   filter is_late_step
     (events (handleAction demo_env (demo_props ''item'' (VStr ''hit'') ''good''))) = [] \<and>
   filter is_warn
     (events (handleAction demo_env (demo_props ''item'' (VStr ''hit'') ''good''))) = []"
proof -
  let ?p = "demo_props ''item'' (VStr ''hit'') ''good''"
  define evs where "evs = fst (prepare demo_env ?p)"
  define q where "q = projr (snd (prepare demo_env ?p))"
  define s1 where "s1 = snd (handler_run demo_env ?p q (start demo_env evs))"
  have 1: "action ?p \<noteq> ''task''" by (simp add: demo_props_def)
  have 2: "prepare demo_env ?p = (evs, Inr q)"
    unfolding evs_def q_def by (simp add: model_defs demo_defs)
  have 3: "handler_run demo_env ?p q (start demo_env evs) =
             (Inl (CacheFoundError (VNum 42) VUndefined), s1)"
    unfolding s1_def q_def evs_def by (simp add: model_defs demo_defs)
  have 4: "sends (trace s1) = []"
    unfolding s1_def q_def evs_def by (simp add: model_defs demo_defs sends_def)
  have 5: "cache_inline demo_env (VObj []) (VStr ''hit'') =
             Inl (CacheFoundError (VNum 42) VUndefined)"
    by (simp add: demo_defs)
  have 6: "p_input q = VStr ''hit''" "sigData (p_ctx q) = VObj [(''user'', VStr ''u'')]"
    unfolding q_def by (simp_all add: model_defs demo_defs)
  note sc = short_circuit [OF 1 2 3]
  have 7: "sends (events (handleAction demo_env ?p)) = [EvSend ''response'' 200 (VNum 42)]"
    using sc [THEN conjunct2, THEN conjunct1] 4
    by (simp add: sends_append response_type_def) (simp add: sends_def)
  from 1 5 6 7 sc [THEN conjunct1] sc [THEN conjunct2, THEN conjunct2] show ?thesis
    by simp
qed

theorem short_circuit_swallowed_counterexample:
  "cache_inline demo_env (VObj []) (VStr ''hit'') = Inl (CacheFoundError (VNum 42) VUndefined) \<and>
   rejected (handleAction demo_env (demo_props ''swallow'' (VStr ''hit'') ''good'')) = None \<and>
   events (handleAction demo_env (demo_props ''swallow'' (VStr ''hit'') ''good'')) =
     [EvGetActionHandler ''swallow'', EvValidateSignature ''good'',
      EvGetActionValidator ''worker'' ''swallow'', EvValidatorRequest (VStr ''hit''),
      EvCacheClone ''demo'' (VObj []),
      EvHandler (VStr ''hit'') (VObj [(''user'', VStr ''u'')]),
      EvInline (VStr ''hit'') (VObj []),
      EvValidatorResponse (VStr ''recomputed''),
      EvSend ''response'' 200 (VStr ''recomputed''), EvSetSendResponse]"
  by (simp add: model_defs demo_defs)

text \<open>
  C10. The response to a short-circuit is decided by one test, whether the field
  \<open>result\<close> of the \<open>CacheFoundError\<close> is \<open>undefined\<close>: if it is, the response has status
  500 and payload \<open>{ error: <the field error> }\<close>, whatever was recorded, so a recorded
  success with value \<open>undefined\<close> is answered like a recorded failure; if it is not,
  the response has status 200 and carries the result, and the field \<open>error\<close> plays no
  part.
\<close>

theorem short_circuit_by_result:
  assumes "action p \<noteq> ''task''"
    and "prepare e p = (evs, Inr q)"
    and "handler_run e p q (start e evs) = (Inl (CacheFoundError res cached), s1)"
  shows "sends (events (handleAction e p)) =
           [if res = VUndefined then EvSend ''response'' 500 (VObj [(''error'', cached)])
            else EvSend (response_type res) 200 res]"
proof -
  have "invoke e p q (start e evs) = (Inl (CacheFoundError res cached), s1)"
    by (simp add: invoke_after_handler [OF assms(3)])
  then have "try_block e p q (start e evs) = (Inl (CacheFoundError res cached), s1)"
    by (rule try_block_thrown)
  from dispatch_short_circuit [OF this] handleAction_dispatch [OF assms(1,2)]
  have ha: "handleAction e p =
     (if res \<noteq> VUndefined
      then send_response (Responder (request_record e p q)) 200 res (trace s1)
      else send_response (Responder (request_record e p q)) 500 (VObj [(''error'', cached)])
             (trace s1))" by simp
  show ?thesis
    using handler_run_quiet(3) [OF assms(2,3)]
    by (simp add: ha send_response_fresh sends_append) (simp add: sends_def)
qed

theorem short_circuit_by_result_witness:
  "action (demo_props ''item'' (VStr ''failed'') ''good'') \<noteq> ''task'' \<and>
   cache_inline demo_env (VObj []) (VStr ''failed'') =
     Inl (CacheFoundError VUndefined (VStr ''boom'')) \<and>
   sends (events (handleAction demo_env (demo_props ''item'' (VStr ''failed'') ''good''))) =
     [EvSend ''response'' 500 (VObj [(''error'', VStr ''boom'')])]"
proof -
  let ?p = "demo_props ''item'' (VStr ''failed'') ''good''"
  define evs where "evs = fst (prepare demo_env ?p)"
  define q where "q = projr (snd (prepare demo_env ?p))"
  define s1 where "s1 = snd (handler_run demo_env ?p q (start demo_env evs))"
  have 1: "action ?p \<noteq> ''task''" by (simp add: demo_props_def)
  have 2: "prepare demo_env ?p = (evs, Inr q)"
    unfolding evs_def q_def by (simp add: model_defs demo_defs)
  have 3: "handler_run demo_env ?p q (start demo_env evs) =
             (Inl (CacheFoundError VUndefined (VStr ''boom'')), s1)"
    unfolding s1_def q_def evs_def by (simp add: model_defs demo_defs)
  have 5: "cache_inline demo_env (VObj []) (VStr ''failed'') =
             Inl (CacheFoundError VUndefined (VStr ''boom''))"
    by (simp add: demo_defs)
  from short_circuit_by_result [OF 1 2 3] 1 5 show ?thesis by simp
qed

subsection \<open>Signature validation\<close>

text \<open>
  C5. Take an invocation that reaches the authentication step: its action is not
  \<open>task\<close> and the addon resolves a handler for it. If the bypass flag is set, or the
  action is \<open>selftest\<close> or \<open>addon\<close>, or the addon's type is \<open>repository\<close> and the action
  is \<open>repository\<close>, then \<open>validateSignature\<close> is never called and every call of the
  handler receives \<open>null\<close> as signature data. In every other case \<open>validateSignature\<close> is
  called on the supplied signature, once, as the second call of the invocation and so
  before the handler; if it fails, the invocation is rejected with its error and ends
  there, without a call of the handler; if it succeeds, the handler receives the data
  it returned.
\<close>

theorem signature_policy:
  assumes "action p \<noteq> ''task''" and "getActionHandler e (action p) = Inr h"
  shows "if SKIP_AUTH e = Some ''1'' \<or> action p = ''selftest'' \<or> action p = ''addon'' \<or>
            (getType e = ''repository'' \<and> action p = ''repository'')
         then filter is_validateSignature (events (handleAction e p)) = [] \<and>
              (\<forall>inp sd. EvHandler inp sd \<in> set (events (handleAction e p)) \<longrightarrow> sd = VNull)
         else (\<exists>rest. events (handleAction e p) =
                        EvGetActionHandler (action p) # EvValidateSignature (sig p) # rest \<and>
                      filter is_validateSignature rest = [] \<and>
                      (case validateSignature e (sig p) of
                         Inl err \<Rightarrow> rejected (handleAction e p) = Some err \<and> rest = []
                       | Inr sd \<Rightarrow> (\<forall>inp sd'. EvHandler inp sd' \<in> set rest \<longrightarrow> sd' = sd)))"
proof -
  have ex: "(SKIP_AUTH e = Some ''1'' \<or> action p = ''selftest'' \<or> action p = ''addon'' \<or>
            (getType e = ''repository'' \<and> action p = ''repository'')) = auth_exempt e (action p)"
    by (simp add: auth_exempt_def)
  obtain evs r0 where pr: "prepare e p = (evs, r0)" by (cases "prepare e p")
  show ?thesis
  proof (cases r0)
    case (Inl err)
    with pr assms(1) have ha: "handleAction e p =
        \<lparr>rejected = Some err, events = evs, final_responder = None\<rparr>"
      by (simp add: handleAction_rejected_early)
    have ne: "\<And>inp sd. EvHandler inp sd \<noteq> request_event e p"
      using request_event_kind(5) [of e p] by (metis is_handler_call.simps(1))
    from prepare_Inl [OF pr [unfolded Inl] assms(2)]
    show ?thesis unfolding ex ha
      by (auto simp: request_event_kind ne split: if_splits sum.splits)
  next
    case (Inr q)
    with pr assms(1) have ha: "handleAction e p = dispatch e p q evs"
      by (simp add: handleAction_dispatch)
    note pq = pr [unfolded Inr]
    note pi = prepare_Inr [OF pq]
    from dispatch_filters(3) [OF pq] obtain rest0 where
      ev: "events (dispatch e p q evs) = evs @ rest0" by blast
    have hc: "\<And>inp sd. EvHandler inp sd \<in> set (events (dispatch e p q evs)) \<Longrightarrow>
                sd = sigData (p_ctx q)"
      using handler_call_in_filter dispatch_filters(1) [OF pq] by fastforce
    show ?thesis
    proof (cases "auth_exempt e (action p)")
      case True
      with dispatch_filters(2) [OF pq] hc pi show ?thesis unfolding ex ha by auto
    next
      case False
      with pi have vs: "validateSignature e (sig p) = Inr (sigData (p_ctx q))" by simp
      from False pi have evs: "evs = EvGetActionHandler (action p) # EvValidateSignature (sig p) #
           [EvGetActionValidator (getType e) (action p), request_event e p]" by simp
      let ?rest = "[EvGetActionValidator (getType e) (action p), request_event e p] @ rest0"
      have e1: "events (dispatch e p q evs) =
          EvGetActionHandler (action p) # EvValidateSignature (sig p) # ?rest"
        using ev evs by simp
      have e2: "filter is_validateSignature ?rest = []"
        using dispatch_filters(2) [OF pq] False unfolding e1 by simp
      have e3: "\<forall>inp sd'. EvHandler inp sd' \<in> set ?rest \<longrightarrow> sd' = sigData (p_ctx q)"
        using hc unfolding e1 by simp
      from e1 e2 e3 vs False show ?thesis unfolding ex ha by auto
    qed
  qed
qed

theorem signature_policy_witness:
  "action (demo_props ''selftest'' VNull ''unsigned'') \<noteq> ''task'' \<and>
   filter is_validateSignature
     (events (handleAction demo_env (demo_props ''selftest'' VNull ''unsigned''))) = [] \<and>
   action (demo_props ''directory'' VNull ''good'') \<noteq> ''task'' \<and>
   (\<exists>rest. events (handleAction demo_env (demo_props ''directory'' VNull ''good'')) =
            EvGetActionHandler ''directory'' # EvValidateSignature ''good'' # rest \<and>
          filter is_validateSignature rest = [])"
proof -
  let ?p1 = "demo_props ''selftest'' VNull ''unsigned''"
  let ?p2 = "demo_props ''directory'' VNull ''good''"
  have a1: "action ?p1 \<noteq> ''task''" by (simp add: demo_props_def)
  have b1: "getActionHandler demo_env (action ?p1) = Inr (\<lambda>inp ctx. Return VNull)"
    by (simp add: demo_defs)
  have a2: "action ?p2 \<noteq> ''task''" by (simp add: demo_props_def)
  have b2: "getActionHandler demo_env (action ?p2) =
              Inr (\<lambda>inp ctx. Return (VObj [(''items'', VNum 0)]))"
    by (simp add: demo_defs)
  have c1: "filter is_validateSignature (events (handleAction demo_env ?p1)) = []"
    using signature_policy [OF a1 b1] by (simp add: demo_props_def)
  have c2: "\<exists>rest. events (handleAction demo_env ?p2) =
            EvGetActionHandler ''directory'' # EvValidateSignature ''good'' # rest \<and>
          filter is_validateSignature rest = []"
    using signature_policy [OF a2 b2] by (auto simp: demo_props_def demo_env_def)
  from a1 a2 c1 c2 show ?thesis by simp
qed

subsection \<open>Recording the outcome in the inline entry\<close>

text \<open>
  C4. Take an invocation whose action is not \<open>task\<close> and whose steps 2 to 4 succeed,
  and let steps 5 and 6 (the call of the handler, the default errors, the response
  migration) end with an inline entry stored by \<open>requestCache\<close> and without a
  \<open>CacheFoundError\<close>. Up to that point nothing has been sent. If steps 5 and 6 returned
  the migrated output, the next call is \<open>set\<close> with that output, and when \<open>set\<close> succeeds
  the response with status 200 and that output follows. If they ended with a thrown
  value (from the handler, from the default "Nothing found", or from the response
  migration), the next call is \<open>setError\<close> with that value, and when \<open>setError\<close>
  succeeds and the value is neither \<open>null\<close> nor \<open>undefined\<close> the only response sent
  after it is the one with status 500.
\<close>

theorem outcome_recorded:
  assumes "action p \<noteq> ''task''"
    and "prepare e p = (evs, Inr q)"
    and "invoke e p q (start e evs) = (r, s1)"
    and "inlineCache s1 = Some c"
  shows "sends (trace s1) = [] \<and>
    (\<forall>out. r = Inr out \<longrightarrow>
       (\<exists>post. events (handleAction e p) = trace s1 @ EvSet out # post \<and>
          (inline_set c out = None \<longrightarrow>
             rejected (handleAction e p) = None \<and>
             post = [EvSend (response_type out) 200 out, EvSetSendResponse]))) \<and>
    (\<forall>v. r = Inl (Exn v) \<longrightarrow>
       (\<exists>post. events (handleAction e p) = trace s1 @ EvSetError v # post \<and>
          (inline_setError c v = None \<and> v \<noteq> VNull \<and> v \<noteq> VUndefined \<longrightarrow>
             rejected (handleAction e p) = None \<and>
             (\<exists>m. get_property v ''message'' = Inr m \<and>
                  sends post =
                    [EvSend ''response'' 500 (VObj [(''error'', if truthy m then m else v)])]))))"
proof -
  note ha = handleAction_dispatch [OF assms(1,2)]
  have quiet: "sends (trace s1) = []"
    using invoke_sends [OF assms(3)] start_sends [OF prepare_sends [OF assms(2)]] by simp
  from dispatch_after_invoke [OF assms(3)] assms(4) obtain ks where
    ev: "events (dispatch e p q evs) = trace s1 @ ks" and
    set: "\<forall>out. r = Inr out \<longrightarrow> (\<exists>ks'. ks = EvSet out # ks')" and
    err: "\<forall>v. r = Inl (Exn v) \<longrightarrow> (\<exists>ks'. ks = EvSetError v # ks')"
    by auto
  have success: "\<exists>post. events (handleAction e p) = trace s1 @ EvSet out # post \<and>
          (inline_set c out = None \<longrightarrow>
             rejected (handleAction e p) = None \<and>
             post = [EvSend (response_type out) 200 out, EvSetSendResponse])"
    if r: "r = Inr out" for out
  proof (cases "inline_set c out")
    case None
    with assms(3,4) r have "try_block e p q (start e evs) = (Inr out, emit [EvSet out] s1)"
      by (simp add: try_block_def)
    from dispatch_returned [OF this] show ?thesis
      unfolding ha by (simp add: send_response_fresh emit_def)
  next
    case (Some err')
    with set r ev show ?thesis unfolding ha by auto
  qed
  have failure: "\<exists>post. events (handleAction e p) = trace s1 @ EvSetError v # post \<and>
          (inline_setError c v = None \<and> v \<noteq> VNull \<and> v \<noteq> VUndefined \<longrightarrow>
             rejected (handleAction e p) = None \<and>
             (\<exists>m. get_property v ''message'' = Inr m \<and>
                  sends post =
                    [EvSend ''response'' 500 (VObj [(''error'', if truthy m then m else v)])]))"
    if r: "r = Inl (Exn v)" for v
  proof (cases "inline_setError c v = None \<and> v \<noteq> VNull \<and> v \<noteq> VUndefined")
    case True
    from assms(3) r have tb: "try_block e p q (start e evs) = (Inl (Exn v), s1)"
      by (simp add: try_block_thrown)
    from True assms(4) have ok: "\<forall>c. inlineCache s1 = Some c \<longrightarrow> inline_setError c v = None"
      by simp
    from dispatch_failure [OF tb _ _ ok] True assms(4) obtain m quiet where
      m: "get_property v ''message'' = Inr m" and
      d: "dispatch e p q evs =
            send_response (Responder (request_record e p q)) 500
              (VObj [(''error'', if truthy m then m else v)])
              (trace s1 @ [EvSetError v] @ (if truthy quiet then [] else [EvWarn v]))"
      by auto
    show ?thesis
      unfolding ha d using m
      by (auto simp: send_response_fresh sends_def)
  next
    case False
    with err r ev show ?thesis unfolding ha by auto
  qed
  from quiet success failure show ?thesis by blast
qed

theorem outcome_recorded_witness:
  "action (demo_props ''item'' (VStr ''A'') ''good'') \<noteq> ''task'' \<and>
   events (handleAction demo_env (demo_props ''item'' (VStr ''A'') ''good'')) =
     [EvGetActionHandler ''item'', EvValidateSignature ''good'',
      EvGetActionValidator ''worker'' ''item'', EvValidatorRequest (VStr ''A''),
      EvCacheClone ''demo'' (VObj []),
      EvHandler (VStr ''A'') (VObj [(''user'', VStr ''u'')]),
      EvInline (VStr ''A'') (VObj []), EvValidatorResponse (VStr ''fresh''),
      EvSet (VStr ''fresh''), EvSend ''response'' 200 (VStr ''fresh''), EvSetSendResponse] \<and>
   (\<exists>post. events (handleAction demo_env (demo_props ''subtitle'' (VStr ''A'') ''good'')) =
      [EvGetActionHandler ''subtitle'', EvValidateSignature ''good'',
       EvGetActionValidator ''worker'' ''subtitle'', EvValidatorRequest (VStr ''A''),
       EvCacheClone ''demo'' (VObj []),
       EvHandler (VStr ''A'') (VObj [(''user'', VStr ''u'')]),
       EvInline (VStr ''A'') (VObj []),
       EvSetError (new_Error ''Request cache is already set up'')] @ post \<and>
      sends post =
        [EvSend ''response'' 500 (VObj [(''error'', VStr ''Request cache is already set up'')])])"
proof -
  let ?p1 = "demo_props ''item'' (VStr ''A'') ''good''"
  let ?p2 = "demo_props ''subtitle'' (VStr ''A'') ''good''"
  let ?v = "new_Error ''Request cache is already set up''"
  define evs1 where "evs1 = fst (prepare demo_env ?p1)"
  define q1 where "q1 = projr (snd (prepare demo_env ?p1))"
  define s1 where "s1 = snd (invoke demo_env ?p1 q1 (start demo_env evs1))"
  define evs2 where "evs2 = fst (prepare demo_env ?p2)"
  define q2 where "q2 = projr (snd (prepare demo_env ?p2))"
  define s2 where "s2 = snd (invoke demo_env ?p2 q2 (start demo_env evs2))"
  have a1: "action ?p1 \<noteq> ''task''" by (simp add: demo_props_def)
  have b1: "prepare demo_env ?p1 = (evs1, Inr q1)"
    unfolding evs1_def q1_def by (simp add: model_defs demo_defs)
  have c1: "invoke demo_env ?p1 q1 (start demo_env evs1) = (Inr (VStr ''fresh''), s1)"
    unfolding s1_def q1_def evs1_def by (simp add: model_defs demo_defs)
  have d1: "inlineCache s1 = Some demo_entry"
    unfolding s1_def q1_def evs1_def by (simp add: model_defs demo_defs)
  have t1: "trace s1 =
     [EvGetActionHandler ''item'', EvValidateSignature ''good'',
      EvGetActionValidator ''worker'' ''item'', EvValidatorRequest (VStr ''A''),
      EvCacheClone ''demo'' (VObj []),
      EvHandler (VStr ''A'') (VObj [(''user'', VStr ''u'')]),
      EvInline (VStr ''A'') (VObj []), EvValidatorResponse (VStr ''fresh'')]"
    unfolding s1_def q1_def evs1_def by (simp add: model_defs demo_defs)
  have a2: "action ?p2 \<noteq> ''task''" by (simp add: demo_props_def)
  have b2: "prepare demo_env ?p2 = (evs2, Inr q2)"
    unfolding evs2_def q2_def by (simp add: model_defs demo_defs)
  have c2: "invoke demo_env ?p2 q2 (start demo_env evs2) = (Inl (Exn ?v), s2)"
    unfolding s2_def q2_def evs2_def by (simp add: model_defs demo_defs)
  have d2: "inlineCache s2 = Some demo_entry"
    unfolding s2_def q2_def evs2_def by (simp add: model_defs demo_defs)
  have t2: "trace s2 =
      [EvGetActionHandler ''subtitle'', EvValidateSignature ''good'',
       EvGetActionValidator ''worker'' ''subtitle'', EvValidatorRequest (VStr ''A''),
       EvCacheClone ''demo'' (VObj []),
       EvHandler (VStr ''A'') (VObj [(''user'', VStr ''u'')]),
       EvInline (VStr ''A'') (VObj [])]"
    unfolding s2_def q2_def evs2_def by (simp add: model_defs demo_defs)
  have r1: "events (handleAction demo_env ?p1) =
      trace s1 @ [EvSet (VStr ''fresh''), EvSend ''response'' 200 (VStr ''fresh''), EvSetSendResponse]"
    using outcome_recorded [OF a1 b1 c1 d1]
    by (auto simp: demo_entry_def response_type_def)
  have r2: "\<exists>post. events (handleAction demo_env ?p2) = trace s2 @ EvSetError ?v # post \<and>
      sends post =
        [EvSend ''response'' 500 (VObj [(''error'', VStr ''Request cache is already set up'')])]"
    using outcome_recorded [OF a2 b2 c2 d2]
    by (auto simp: demo_entry_def new_Error_def)
  from a1 r1 r2 show ?thesis unfolding t1 t2 by simp
qed

subsection \<open>Null results\<close>

text \<open>
  C8. Take an invocation whose action is not \<open>task\<close>, whose steps 2 to 4 succeed and
  whose handler returns \<open>null\<close>. For the actions \<open>resolve\<close> and \<open>captcha\<close> the response
  has status 500 and payload \<open>{ error: "Nothing found" }\<close> (provided that \<open>setError\<close>,
  when an inline entry is engaged, records the error without failing). For every other
  action \<open>null\<close> is passed to the response migration like any other output, and what
  the migration returns is sent with status 200 (provided that \<open>set\<close>, when an inline
  entry is engaged, does not fail).
\<close>

theorem null_result:
  assumes "action p \<noteq> ''task''"
    and "prepare e p = (evs, Inr q)"
    and "handler_run e p q (start e evs) = (Inr VNull, s1)"
  shows "if action p = ''resolve'' \<or> action p = ''captcha''
         then (\<forall>c. inlineCache s1 = Some c \<longrightarrow>
                   inline_setError c (new_Error ''Nothing found'') = None) \<longrightarrow>
              rejected (handleAction e p) = None \<and>
              sends (events (handleAction e p)) =
                [EvSend ''response'' 500 (VObj [(''error'', VStr ''Nothing found'')])]
         else (\<forall>out. snd (migrate_response e (action p) (p_ctx q) (p_input q) VNull) = Inr out \<and>
                     (\<forall>c. inlineCache s1 = Some c \<longrightarrow> inline_set c out = None) \<longrightarrow>
                 rejected (handleAction e p) = None \<and>
                 sends (events (handleAction e p)) = [EvSend (response_type out) 200 out])"
proof (cases "action p = ''resolve'' \<or> action p = ''captcha''")
  case True
  let ?v = "new_Error ''Nothing found''"
  have inv: "invoke e p q (start e evs) = (Inl (Exn ?v), s1)"
    using True by (simp add: invoke_after_handler [OF assms(3)])
  then have tb: "try_block e p q (start e evs) = (Inl (Exn ?v), s1)" by (rule try_block_thrown)
  have nn: "?v \<noteq> VNull" "?v \<noteq> VUndefined" by (simp_all add: new_Error_def)
  have gp: "get_property ?v ''message'' = Inr (VStr ''Nothing found'')"
    "get_property ?v ''noBacktraceLog'' = Inr VUndefined"
    by (simp_all add: new_Error_def)
  {
    assume ok: "\<forall>c. inlineCache s1 = Some c \<longrightarrow> inline_setError c ?v = None"
    from dispatch_failure [OF tb nn ok] gp
    have d: "dispatch e p q evs =
             send_response (Responder (request_record e p q)) 500
               (VObj [(''error'', VStr ''Nothing found'')])
               (trace s1 @ (case inlineCache s1 of None \<Rightarrow> [] | Some c \<Rightarrow> [EvSetError ?v]) @
                  [EvWarn ?v])"
      by auto
    have "rejected (handleAction e p) = None \<and>
          sends (events (handleAction e p)) =
            [EvSend ''response'' 500 (VObj [(''error'', VStr ''Nothing found'')])]"
      using handler_run_quiet(3) [OF assms(2,3)]
      unfolding handleAction_dispatch [OF assms(1,2)] d
      by (simp add: send_response_fresh sends_append) (simp add: sends_def split: option.splits)
  }
  with True show ?thesis by simp
next
  case False
  {
    fix out
    assume mr: "snd (migrate_response e (action p) (p_ctx q) (p_input q) VNull) = Inr out"
      and ok: "\<forall>c. inlineCache s1 = Some c \<longrightarrow> inline_set c out = None"
    have inv: "invoke e p q (start e evs) = (Inr out, emit [response_event e p q VNull] s1)"
      using False mr by (simp add: invoke_after_handler [OF assms(3)])
    have "\<exists>ks. try_block e p q (start e evs) = (Inr out, emit ks s1) \<and> sends ks = []"
      using ok
      by (cases "inlineCache s1")
         (auto simp: try_block_after_invoke [OF inv] emit_def sends_def response_event_kind
           intro: exI [of _ "[response_event e p q VNull]"]
                  exI [of _ "[response_event e p q VNull, EvSet out]"])
    then obtain ks where tb: "try_block e p q (start e evs) = (Inr out, emit ks s1)"
      and ks: "sends ks = []" by blast
    have "rejected (handleAction e p) = None \<and>
          sends (events (handleAction e p)) = [EvSend (response_type out) 200 out]"
      using handler_run_quiet(3) [OF assms(2,3)] ks
      unfolding handleAction_dispatch [OF assms(1,2)] dispatch_returned [OF tb]
      by (simp add: send_response_fresh sends_append emit_def) (simp add: sends_def)
  }
  with False show ?thesis by simp
qed

theorem null_result_witness:
  "action (demo_props ''resolve'' (VStr ''x'') ''good'') \<noteq> ''task'' \<and>
   sends (events (handleAction demo_env (demo_props ''resolve'' (VStr ''x'') ''good''))) =
     [EvSend ''response'' 500 (VObj [(''error'', VStr ''Nothing found'')])] \<and>
   action (demo_props ''selftest'' VNull ''unsigned'') \<noteq> ''task'' \<and>
   sends (events (handleAction demo_env (demo_props ''selftest'' VNull ''unsigned''))) =
     [EvSend ''response'' 200 VNull]"
proof -
  let ?p1 = "demo_props ''resolve'' (VStr ''x'') ''good''"
  let ?p2 = "demo_props ''selftest'' VNull ''unsigned''"
  define evs1 where "evs1 = fst (prepare demo_env ?p1)"
  define q1 where "q1 = projr (snd (prepare demo_env ?p1))"
  define s1 where "s1 = snd (handler_run demo_env ?p1 q1 (start demo_env evs1))"
  define evs2 where "evs2 = fst (prepare demo_env ?p2)"
  define q2 where "q2 = projr (snd (prepare demo_env ?p2))"
  define s2 where "s2 = snd (handler_run demo_env ?p2 q2 (start demo_env evs2))"
  have a1: "action ?p1 \<noteq> ''task''" by (simp add: demo_props_def)
  have b1: "prepare demo_env ?p1 = (evs1, Inr q1)"
    unfolding evs1_def q1_def by (simp add: model_defs demo_defs)
  have c1: "handler_run demo_env ?p1 q1 (start demo_env evs1) = (Inr VNull, s1)"
    unfolding s1_def q1_def evs1_def by (simp add: model_defs demo_defs)
  have d1: "inlineCache s1 = None"
    unfolding s1_def q1_def evs1_def by (simp add: model_defs demo_defs)
  have a2: "action ?p2 \<noteq> ''task''" by (simp add: demo_props_def)
  have b2: "prepare demo_env ?p2 = (evs2, Inr q2)"
    unfolding evs2_def q2_def by (simp add: model_defs demo_defs)
  have c2: "handler_run demo_env ?p2 q2 (start demo_env evs2) = (Inr VNull, s2)"
    unfolding s2_def q2_def evs2_def by (simp add: model_defs demo_defs)
  have d2: "inlineCache s2 = None"
    unfolding s2_def q2_def evs2_def by (simp add: model_defs demo_defs)
  have m2: "snd (migrate_response demo_env (action ?p2) (p_ctx q2) (p_input q2) VNull) = Inr VNull"
    unfolding q2_def by (simp add: model_defs demo_defs)
  have r1: "sends (events (handleAction demo_env ?p1)) =
     [EvSend ''response'' 500 (VObj [(''error'', VStr ''Nothing found'')])]"
    using null_result [OF a1 b1 c1] d1 by (simp add: demo_props_def)
  have r2: "sends (events (handleAction demo_env ?p2)) = [EvSend ''response'' 200 VNull]"
    using null_result [OF a2 b2 c2] d2 m2 by (simp add: demo_props_def response_type_def)
  from a1 a2 r1 r2 show ?thesis by simp
qed

subsection \<open>Migration fallback\<close>

text \<open>
  C9 (amended). The transform is chosen for each direction on its own. Take an
  invocation whose action is not \<open>task\<close>, whose steps 2 to 4 succeed and whose handler
  returns an output that is not turned into the default "Nothing found" error. Exactly
  two transforms are applied. The request transform is the one of the action's
  migration entry when the entry has one, and the validator's otherwise; the handler's
  input is its result. The response transform is the one of the action's migration
  entry when the entry has one, and the validator's otherwise; the result of steps 5
  and 6 is its result. So an action without entry gets the validator's two transforms,
  an entry with both transforms gets its own two, and an entry with only one transform
  gets the validator's for the other direction.

  As stated the claim excludes any mix of an entry's transforms with the validator's.
  Lines 103 and 163 test \<open>migrations[action]?.request\<close> and \<open>migrations[action]?.response\<close>
  separately: the counterexample is a registered entry with a request transform only,
  whose response goes through the validator.
\<close>

theorem migration_per_direction:
  assumes "action p \<noteq> ''task''"
    and "prepare e p = (evs, Inr q)"
    and "handler_run e p q (start e evs) = (Inr out, s1)"
    and "\<not> ((action p = ''resolve'' \<or> action p = ''captcha'') \<and> out = VNull)"
  shows "filter is_transform (events (handleAction e p)) =
           [case Option.bind (migrations e (action p)) m_request of
              None \<Rightarrow> EvValidatorRequest (input p)
            | Some f \<Rightarrow> EvMigrationRequest (action p) (input p),
            case Option.bind (migrations e (action p)) m_response of
              None \<Rightarrow> EvValidatorResponse out
            | Some g \<Rightarrow> EvMigrationResponse (action p) (p_input q) out] \<and>
         (case Option.bind (migrations e (action p)) m_request of
            None \<Rightarrow> v_request (getActionValidator e (getType e) (action p)) (input p) = Inr (p_input q)
          | Some f \<Rightarrow>
              \<exists>d. f \<lparr>data = VObj [], sigData = sigData (p_ctx q),
                      validator = getActionValidator e (getType e) (action p)\<rparr> (input p)
                   = Inr (d, p_input q)) \<and>
         fst (invoke e p q (start e evs)) =
           (case Option.bind (migrations e (action p)) m_response of
              None \<Rightarrow> v_response (getActionValidator e (getType e) (action p)) out
            | Some g \<Rightarrow> g (p_ctx q) (p_input q) out)"
proof -
  note pi = prepare_Inr [OF assms(2)]
  have inv: "invoke e p q (start e evs) =
      (snd (migrate_response e (action p) (p_ctx q) (p_input q) out),
       emit [response_event e p q out] s1)"
    using assms(4) by (auto simp: invoke_after_handler [OF assms(3)])
  from dispatch_after_invoke [OF inv] obtain ks where
    ev: "events (dispatch e p q evs) = trace (emit [response_event e p q out] s1) @ ks" and
    ks: "filter (\<lambda>ev. \<not> is_closing ev) ks = []" by blast
  have k: "filter is_transform ks = []"
    by (rule only_closing_filter [OF ks]) (erule is_closing.elims, simp_all)
  have 1: "filter is_transform (events (handleAction e p)) =
      [request_event e p, response_event e p q out]"
    unfolding handleAction_dispatch [OF assms(1,2)] ev
    using handler_run_quiet(4) [OF assms(2,3)] k
    by (simp add: emit_def response_event_kind)
  have 2: "fst (invoke e p q (start e evs)) =
           (case Option.bind (migrations e (action p)) m_response of
              None \<Rightarrow> v_response (getActionValidator e (getType e) (action p)) out
            | Some g \<Rightarrow> g (p_ctx q) (p_input q) out)"
    using pi [THEN conjunct2, THEN conjunct2, THEN conjunct1]
    by (simp add: inv migrate_response_eq split: option.splits)
  from 1 2 pi [THEN conjunct2, THEN conjunct2, THEN conjunct2, THEN conjunct2] show ?thesis
    by (simp add: request_event_def response_event_def)
qed

theorem migration_per_direction_witness:
  "action (demo_props ''directory'' (VStr ''w'') ''good'') \<noteq> ''task'' \<and>
   filter is_transform (events (handleAction demo_env (demo_props ''directory'' (VStr ''w'') ''good''))) =
     [EvMigrationRequest ''directory'' (VStr ''w''),
      EvValidatorResponse (VObj [(''items'', VNum 0)])]"
proof -
  let ?p = "demo_props ''directory'' (VStr ''w'') ''good''"
  define evs where "evs = fst (prepare demo_env ?p)"
  define q where "q = projr (snd (prepare demo_env ?p))"
  define s1 where "s1 = snd (handler_run demo_env ?p q (start demo_env evs))"
  have 1: "action ?p \<noteq> ''task''" by (simp add: demo_props_def)
  have 2: "prepare demo_env ?p = (evs, Inr q)"
    unfolding evs_def q_def by (simp add: model_defs demo_defs)
  have 3: "handler_run demo_env ?p q (start demo_env evs) = (Inr (VObj [(''items'', VNum 0)]), s1)"
    unfolding s1_def q_def evs_def by (simp add: model_defs demo_defs)
  have 4: "\<not> ((action ?p = ''resolve'' \<or> action ?p = ''captcha'') \<and>
               VObj [(''items'', VNum 0)] = VNull)" by simp
  from migration_per_direction [OF 1 2 3 4, THEN conjunct1] 1 show ?thesis
    by (simp add: demo_defs)
qed

theorem migration_blending_counterexample:
  "migrations demo_env ''directory'' \<noteq> None \<and>
   action (demo_props ''directory'' VNull ''good'') = ''directory'' \<and>
   filter is_transform (events (handleAction demo_env (demo_props ''directory'' VNull ''good''))) =
     [EvMigrationRequest ''directory'' VNull,
      EvValidatorResponse (VObj [(''items'', VNum 0)])]"
  by (simp add: model_defs demo_defs)

end
